theory Spec2Isabelle
  imports Main "HOL-Library.Multiset"
begin

section \<open>JavaScript values of a parsed JSON request body\<close>

text \<open>
  \<open>express.json()\<close> hands the handlers of \<open>server.js\<close> the result of \<open>JSON.parse\<close>.
  A property that the body does not have reads as \<open>undefined\<close>. A number of the body is
  carried by the text that \<open>ToString\<close> gives for it, such as \<open>12345\<close>, \<open>-0.5\<close> or \<open>1.5e+21\<close>:
  the handlers only test a number for truthiness, convert it to a string and fail to find
  a \<open>trim\<close> method on it, and a number is falsy exactly when that text is \<open>0\<close> (for 0 and
  -0) or \<open>NaN\<close>. A \<open>char\<close> stands for a UTF-16 code unit below 256, so \<open>length\<close> is the
  \<open>.length\<close> of the JavaScript string.
\<close>

datatype jsval =
    JUndefined
  | JNull
  | JBool bool
  | JNum string
  | JStr string
  | JArr "jsval list"
  | JObj "(string \<times> jsval) list"

text \<open>The exceptions that reach a route's \<open>catch\<close>; \<open>error_message\<close> is \<open>error.message\<close>.\<close>

datatype js_error = TypeError string | WriteError string

fun error_message :: "js_error \<Rightarrow> string" where
  "error_message (TypeError m) = m"
| "error_message (WriteError m) = m"

text \<open>\<open>!v\<close> is \<open>\<not> truthy v\<close>.\<close>

fun truthy :: "jsval \<Rightarrow> bool" where
  "truthy JUndefined = False"
| "truthy JNull = False"
| "truthy (JBool b) = b"
| "truthy (JNum t) = (t \<noteq> ''0'' \<and> t \<noteq> ''NaN'')"
| "truthy (JStr s) = (s \<noteq> [])"
| "truthy (JArr xs) = True"
| "truthy (JObj kvs) = True"

text \<open>
  \<open>const { name, email, message } = req.body\<close>: the own property of the parsed object, or
  \<open>undefined\<close>. The body is the list of the object's properties, each key once; an empty
  list stands for a request without a body and for a body that is an array.
\<close>

definition body_prop :: "(string \<times> jsval) list \<Rightarrow> string \<Rightarrow> jsval" where
  "body_prop body k = (case map_of body k of None \<Rightarrow> JUndefined | Some v \<Rightarrow> v)"

subsection \<open>Strings: \<open>trim\<close>, \<open>toLowerCase\<close>, conversion to string\<close>

text \<open>
  White space and line terminators below code unit 256: tab, line feed, vertical tab,
  form feed, carriage return, space and no-break space. \<open>String.prototype.trim\<close> and the
  class \<open>\s\<close> of a regular expression use the same set.
\<close>

definition is_ws :: "char \<Rightarrow> bool" where
  "is_ws c = (c \<in> set [CHR 0x09, CHR 0x0A, CHR 0x0B, CHR 0x0C, CHR 0x0D, CHR 0x20, CHR 0xA0])"

definition trim :: "string \<Rightarrow> string" where
  "trim s = rev (dropWhile is_ws (rev (dropWhile is_ws s)))"

definition lower_char :: "char \<Rightarrow> char" where
  "lower_char c =
     (let n = (of_char c :: nat)
      in if (65 \<le> n \<and> n \<le> 90) \<or> (192 \<le> n \<and> n \<le> 222 \<and> n \<noteq> 215)
         then char_of (n + 32) else c)"

definition toLowerCase :: "string \<Rightarrow> string" where
  "toLowerCase s = map lower_char s"

text \<open>
  \<open>v.trim()\<close>: only a string has a callable \<open>trim\<close>. On every other value of a JSON body
  the property is \<open>undefined\<close> or a value that is not a function, and the call throws a
  \<open>TypeError\<close>; the first argument is the name of the variable, for the error text.
\<close>

fun call_trim :: "string \<Rightarrow> jsval \<Rightarrow> js_error + string" where
  "call_trim var (JStr s) = Inr (trim s)"
| "call_trim var v = Inl (TypeError (var @ ''.trim is not a function''))"

text \<open>
  \<open>ToString\<close>, as \<open>RegExp.prototype.test\<close> applies it to its argument. An array joins the
  strings of its elements with commas, \<open>null\<close> and \<open>undefined\<close> elements giving the empty
  string. An object gives \<open>[object Object]\<close>, unless it has an own property \<open>toString\<close>:
  a JSON value is never callable, \<open>Object.prototype.valueOf\<close> returns the object, and the
  conversion throws.
\<close>

fun to_string :: "jsval \<Rightarrow> js_error + string"
  and join_elems :: "jsval list \<Rightarrow> js_error + string"
  and elem_string :: "jsval \<Rightarrow> js_error + string" where
  "to_string JUndefined = Inr ''undefined''"
| "to_string JNull = Inr ''null''"
| "to_string (JBool b) = Inr (if b then ''true'' else ''false'')"
| "to_string (JNum t) = Inr t"
| "to_string (JStr s) = Inr s"
| "to_string (JArr xs) = join_elems xs"
| "to_string (JObj kvs) =
     (if ''toString'' \<in> fst ` set kvs
      then Inl (TypeError ''Cannot convert object to primitive value'')
      else Inr ''[object Object]'')"
| "join_elems [] = Inr []"
| "join_elems [x] = elem_string x"
| "join_elems (x # y # ys) =
     (case elem_string x of
        Inl e \<Rightarrow> Inl e
      | Inr a \<Rightarrow> (case join_elems (y # ys) of
                   Inl e \<Rightarrow> Inl e
                 | Inr b \<Rightarrow> Inr (a @ '','' @ b)))"
| "elem_string JUndefined = Inr []"
| "elem_string JNull = Inr []"
| "elem_string v = to_string v"

subsection \<open>Regular expressions\<close>

text \<open>
  The regular expressions that \<open>server.js\<close> needs: character classes, concatenation and
  \<open>+\<close>. \<open>rx_test\<close> is \<open>RegExp.prototype.test\<close> for an expression anchored by \<open>^\<close> and \<open>$\<close>
  without flags: the whole string has to match. It runs by derivatives.
\<close>

datatype rx = Zero | One | Cls "char \<Rightarrow> bool" | Alt rx rx | Seq rx rx | Star rx

definition Plus :: "rx \<Rightarrow> rx" where
  "Plus r = Seq r (Star r)"

fun nullable :: "rx \<Rightarrow> bool" where
  "nullable Zero = False"
| "nullable One = True"
| "nullable (Cls p) = False"
| "nullable (Alt r s) = (nullable r \<or> nullable s)"
| "nullable (Seq r s) = (nullable r \<and> nullable s)"
| "nullable (Star r) = True"

fun deriv :: "char \<Rightarrow> rx \<Rightarrow> rx" where
  "deriv c Zero = Zero"
| "deriv c One = Zero"
| "deriv c (Cls p) = (if p c then One else Zero)"
| "deriv c (Alt r s) = Alt (deriv c r) (deriv c s)"
| "deriv c (Seq r s) =
     (if nullable r then Alt (Seq (deriv c r) s) (deriv c s) else Seq (deriv c r) s)"
| "deriv c (Star r) = Seq (deriv c r) (Star r)"

fun rx_test :: "rx \<Rightarrow> string \<Rightarrow> bool" where
  "rx_test r [] = nullable r"
| "rx_test r (c # cs) = rx_test (deriv c r) cs"

text \<open>The class \<open>[^\s@]\<close>.\<close>

definition not_ws_at :: "char \<Rightarrow> bool" where
  "not_ws_at c = (\<not> is_ws c \<and> c \<noteq> CHR ''@'')"

text \<open>\<open>/^[^\s@]+@[^\s@]+\.[^\s@]+$/\<close>\<close>

definition emailRegex :: rx where
  "emailRegex =
     Seq (Plus (Cls not_ws_at))
       (Seq (Cls (\<lambda>c. c = CHR ''@''))
         (Seq (Plus (Cls not_ws_at))
           (Seq (Cls (\<lambda>c. c = CHR ''.''))
             (Plus (Cls not_ws_at)))))"

text \<open>\<open>emailRegex.test(email)\<close> converts its argument to a string first, which may throw.\<close>

definition isValidEmail :: "jsval \<Rightarrow> js_error + bool" where
  "isValidEmail email =
     (case to_string email of
        Inl e \<Rightarrow> Inl e
      | Inr s \<Rightarrow> Inr (rx_test emailRegex s))"

text \<open>
  The pattern as the specification words it: one or more characters that are neither
  white space nor \<open>@\<close>, an \<open>@\<close>, one or more such characters, a \<open>.\<close>, one or more such
  characters.
\<close>

definition spec_email_pattern :: "string \<Rightarrow> bool" where
  "spec_email_pattern s =
     (\<exists>a b c. s = a @ [CHR ''@''] @ b @ [CHR ''.''] @ c
        \<and> a \<noteq> [] \<and> b \<noteq> [] \<and> c \<noteq> []
        \<and> list_all not_ws_at a \<and> list_all not_ws_at b \<and> list_all not_ws_at c)"

section \<open>The store\<close>

text \<open>
  A feedback record. The field \<open>id\<close> of the source is \<open>id_f\<close> here. \<open>votes\<close> is a
  JavaScript number that holds an integer, carried as that integer; \<open>js_add\<close> below is the
  addition of such numbers. An integer that no double holds, such as \<open>2^53 + 1\<close>, stands for
  no number. The records of the store are separate objects: \<open>JSON.parse\<close>
  and the object literal of the create route never share one. The file that is loaded is
  taken to hold records of this shape.
\<close>

record feedback =
  id_f :: string
  name :: string
  email :: string
  message :: string
  votes :: int
  createdAt :: string

text \<open>
  \<open>a + b\<close> on numbers that hold integers: the exact sum, rounded to the nearest double,
  a tie going to the double with the even significand. A double holds every integer up to
  \<open>2^53\<close> in magnitude; an integer of \<open>n > 53\<close> bits lies between two neighbouring multiples
  of \<open>2^(n - 53)\<close>, which are doubles. The sums of the routes, a number and 1 or -1, stay
  below the largest double.
\<close>

fun bit_length :: "nat \<Rightarrow> nat" where
  "bit_length n = (if n = 0 then 0 else Suc (bit_length (n div 2)))"

declare bit_length.simps [simp del]

definition round_double :: "int \<Rightarrow> int" where
  "round_double x =
     (if \<bar>x\<bar> \<le> 2 ^ 53 then x
      else (let q = 2 ^ (bit_length (nat \<bar>x\<bar>) - 53);
                k = x div q;
                r = x mod q
            in if 2 * r < q then k * q
               else if q < 2 * r then (k + 1) * q
               else if even k then k * q else (k + 1) * q))"

definition js_add :: "int \<Rightarrow> int \<Rightarrow> int" where
  "js_add a b = round_double (a + b)"

text \<open>
  The state of the process: \<open>feedbackStore\<close>, the array in memory, and \<open>dataFile\<close>, the
  array that \<open>feedback-data.json\<close> holds (\<open>None\<close> when there is no file that can be read
  and parsed).
\<close>

record server =
  feedbackStore :: "feedback list"
  dataFile :: "feedback list option"

text \<open>
  What a request takes from outside the program: the value of \<open>generateId()\<close>, the value
  of \<open>new Date().toISOString()\<close>, and whether \<open>fs.writeFile\<close> succeeds (\<open>None\<close>) or rejects
  with an error of the given message. \<open>fs.writeFile\<close> opens the file with truncation and
  then writes the text. \<open>fileOpened\<close> says, for a write that fails, whether the file had been
  opened: if not, the file is as it was; if so, it is left empty or with a beginning of
  the text, which is not JSON, so that nothing can be loaded from it.
\<close>

record env =
  generateId :: string
  nowISO :: string
  writeFile :: "string option"
  fileOpened :: bool

definition loadFeedbackData :: "feedback list option \<Rightarrow> feedback list" where
  "loadFeedbackData file = (case file of None \<Rightarrow> [] | Some xs \<Rightarrow> xs)"

definition initializeData :: "feedback list option \<Rightarrow> server" where
  "initializeData file = \<lparr>feedbackStore = loadFeedbackData file, dataFile = file\<rparr>"

text \<open>
  \<open>saveFeedbackData\<close> returns the error that it throws, if any, and the state after the
  attempt.
\<close>

definition saveFeedbackData :: "env \<Rightarrow> feedback list \<Rightarrow> server \<Rightarrow> js_error option \<times> server" where
  "saveFeedbackData e xs s =
     (case writeFile e of
        None \<Rightarrow> (None, s\<lparr>dataFile := Some xs\<rparr>)
      | Some m \<Rightarrow> (Some (WriteError m), if fileOpened e then s\<lparr>dataFile := None\<rparr> else s))"

subsection \<open>Array operations\<close>

text \<open>
  \<open>Array.prototype.sort\<close> with a comparator is a stable sort: \<open>a\<close> goes before \<open>b\<close> when
  \<open>cmp a b < 0\<close>, after it when \<open>cmp a b > 0\<close>, and the two keep their order when it is 0.
  The model inserts the elements from the last to the first into the sorted rest, each
  before the first element that it does not have to follow.
\<close>

fun insert_sorted :: "('a \<Rightarrow> 'a \<Rightarrow> int) \<Rightarrow> 'a \<Rightarrow> 'a list \<Rightarrow> 'a list" where
  "insert_sorted cmp x [] = [x]"
| "insert_sorted cmp x (y # ys) =
     (if cmp x y \<le> 0 then x # y # ys else y # insert_sorted cmp x ys)"

definition array_sort :: "('a \<Rightarrow> 'a \<Rightarrow> int) \<Rightarrow> 'a list \<Rightarrow> 'a list" where
  "array_sort cmp xs = foldr (insert_sorted cmp) xs []"

text \<open>\<open>findIndex\<close>: the index of the first element that satisfies \<open>p\<close>; \<open>None\<close> is \<open>-1\<close>.\<close>

fun findIndex :: "('a \<Rightarrow> bool) \<Rightarrow> 'a list \<Rightarrow> nat option" where
  "findIndex p [] = None"
| "findIndex p (x # xs) = (if p x then Some 0 else map_option Suc (findIndex p xs))"

text \<open>\<open>xs.splice(i, 1)\<close>: the removed elements and the array that is left.\<close>

definition splice1 :: "nat \<Rightarrow> 'a list \<Rightarrow> 'a list \<times> 'a list" where
  "splice1 i xs = (take 1 (drop i xs), take i xs @ drop (Suc i) xs)"

text \<open>\<open>['upvote', 'downvote'].includes(action)\<close>: only a string equals a string.\<close>

definition includes_action :: "jsval \<Rightarrow> bool" where
  "includes_action action = (action \<in> set [JStr ''upvote'', JStr ''downvote''])"

section \<open>The routes\<close>

text \<open>
  The JSON of a response: the status, and the fields \<open>success\<close>, \<open>message\<close>, \<open>data\<close>,
  \<open>count\<close> and \<open>error\<close> of the body, \<open>None\<close> for a field that the body does not have.
\<close>

datatype payload = NoData | Record feedback | Records "feedback list"

record response =
  status :: nat
  success :: bool
  res_message :: "string option"
  res_data :: payload
  res_count :: "nat option"
  res_error :: "string option"

definition fail_json :: "nat \<Rightarrow> string \<Rightarrow> response" where
  "fail_json code m =
     \<lparr>status = code, success = False, res_message = Some m, res_data = NoData,
      res_count = None, res_error = None\<rparr>"

definition catch_json :: "string \<Rightarrow> js_error \<Rightarrow> response" where
  "catch_json m e =
     \<lparr>status = 500, success = False, res_message = Some m, res_data = NoData,
      res_count = None, res_error = Some (error_message e)\<rparr>"

definition ok_json :: "nat \<Rightarrow> string \<Rightarrow> feedback \<Rightarrow> response" where
  "ok_json code m r =
     \<lparr>status = code, success = True, res_message = Some m, res_data = Record r,
      res_count = None, res_error = None\<rparr>"

text \<open>\<open>app.get('/feedback')\<close>; the comparator is \<open>(a, b) => b.votes - a.votes\<close>.\<close>

definition by_votes :: "feedback \<Rightarrow> feedback \<Rightarrow> int" where
  "by_votes a b = votes b - votes a"

definition get_feedback :: "server \<Rightarrow> response \<times> server" where
  "get_feedback s =
     (let sortedFeedback = array_sort by_votes (feedbackStore s)
      in (\<lparr>status = 200, success = True, res_message = None,
           res_data = Records sortedFeedback,
           res_count = Some (length sortedFeedback), res_error = None\<rparr>, s))"

text \<open>\<open>app.post('/feedback')\<close>\<close>

definition post_feedback :: "env \<Rightarrow> (string \<times> jsval) list \<Rightarrow> server \<Rightarrow> response \<times> server" where
  "post_feedback e body s =
     (let name_v = body_prop body ''name'';
          email_v = body_prop body ''email'';
          message_v = body_prop body ''message''
      in if \<not> truthy name_v \<or> \<not> truthy email_v \<or> \<not> truthy message_v
         then (fail_json 400 ''Name, email, and message are required fields'', s)
         else (case isValidEmail email_v of
            Inl err \<Rightarrow> (catch_json ''Error creating feedback'' err, s)
          | Inr False \<Rightarrow> (fail_json 400 ''Please provide a valid email address'', s)
          | Inr True \<Rightarrow>
         (case call_trim ''message'' message_v of
            Inl err \<Rightarrow> (catch_json ''Error creating feedback'' err, s)
          | Inr m \<Rightarrow>
         if length m < 5
         then (fail_json 400 ''Feedback message must be at least 5 characters long'', s)
         else (case call_trim ''name'' name_v of
            Inl err \<Rightarrow> (catch_json ''Error creating feedback'' err, s)
          | Inr n \<Rightarrow>
         (case call_trim ''email'' email_v of
            Inl err \<Rightarrow> (catch_json ''Error creating feedback'' err, s)
          | Inr em \<Rightarrow>
         (let newFeedback =
                \<lparr>id_f = generateId e, name = n, email = toLowerCase em, message = m,
                 votes = 0, createdAt = nowISO e\<rparr>;
              s1 = s\<lparr>feedbackStore := feedbackStore s @ [newFeedback]\<rparr>
          in case saveFeedbackData e (feedbackStore s1) s1 of
               (Some err, s2) \<Rightarrow> (catch_json ''Error creating feedback'' err, s2)
             | (None, s2) \<Rightarrow> (ok_json 201 ''Feedback submitted successfully'' newFeedback, s2)))))))"

text \<open>
  \<open>app.put('/feedback/:id/vote')\<close>. \<open>find\<close> returns the first record with the id, and the
  assignment to its \<open>votes\<close> changes that element of the array.
\<close>

definition put_vote :: "env \<Rightarrow> string \<Rightarrow> (string \<times> jsval) list \<Rightarrow> server \<Rightarrow> response \<times> server" where
  "put_vote e ident body s =
     (let action = body_prop body ''action''
      in if \<not> truthy action \<or> \<not> includes_action action
         then (fail_json 400 ''Action must be either \"upvote\" or \"downvote\"'', s)
         else (case findIndex (\<lambda>item. id_f item = ident) (feedbackStore s) of
            None \<Rightarrow> (fail_json 404 ''Feedback not found'', s)
          | Some i \<Rightarrow>
         (let old = feedbackStore s ! i;
              fb = (if action = JStr ''upvote''
                    then old\<lparr>votes := js_add (votes old) 1\<rparr>
                    else old\<lparr>votes := js_add (votes old) (- 1)\<rparr>);
              s1 = s\<lparr>feedbackStore := (feedbackStore s)[i := fb]\<rparr>
          in case saveFeedbackData e (feedbackStore s1) s1 of
               (Some err, s2) \<Rightarrow> (catch_json ''Error updating vote'' err, s2)
             | (None, s2) \<Rightarrow>
                 (ok_json 200 (''Feedback '' @ (case action of JStr a \<Rightarrow> a | _ \<Rightarrow> [])
                    @ ''d successfully'') fb, s2))))"

text \<open>\<open>app.delete('/feedback/:id')\<close>\<close>

definition delete_feedback :: "env \<Rightarrow> string \<Rightarrow> server \<Rightarrow> response \<times> server" where
  "delete_feedback e ident s =
     (case findIndex (\<lambda>item. id_f item = ident) (feedbackStore s) of
        None \<Rightarrow> (fail_json 404 ''Feedback not found'', s)
      | Some feedbackIndex \<Rightarrow>
     (let (removed, rest) = splice1 feedbackIndex (feedbackStore s);
          deletedFeedback = hd removed;
          s1 = s\<lparr>feedbackStore := rest\<rparr>
      in case saveFeedbackData e (feedbackStore s1) s1 of
           (Some err, s2) \<Rightarrow> (catch_json ''Error deleting feedback'' err, s2)
         | (None, s2) \<Rightarrow> (ok_json 200 ''Feedback deleted successfully'' deletedFeedback, s2)))"

section \<open>Notions used in the proofs\<close>

text \<open>
  The language of a regular expression, against which the matcher \<open>rx_test\<close> is proved:
  \<open>conc\<close> concatenates two languages and \<open>star\<close> iterates one.
\<close>

definition conc :: "string set \<Rightarrow> string set \<Rightarrow> string set" where
  "conc A B = {u @ v | u v. u \<in> A \<and> v \<in> B}"

inductive_set star :: "string set \<Rightarrow> string set" for A :: "string set" where
  star_nil: "[] \<in> star A"
| star_app: "u \<in> A \<Longrightarrow> v \<in> star A \<Longrightarrow> u @ v \<in> star A"

fun lang :: "rx \<Rightarrow> string set" where
  "lang Zero = {}"
| "lang One = {[]}"
| "lang (Cls p) = {[c] | c. p c}"
| "lang (Alt r s) = lang r \<union> lang s"
| "lang (Seq r s) = conc (lang r) (lang s)"
| "lang (Star r) = star (lang r)"

text \<open>The change that a vote makes to the record it finds.\<close>

definition step_votes :: "jsval \<Rightarrow> feedback \<Rightarrow> feedback" where
  "step_votes a r =
     (if a = JStr ''upvote'' then r\<lparr>votes := js_add (votes r) 1\<rparr>
      else r\<lparr>votes := js_add (votes r) (- 1)\<rparr>)"

text \<open>What the file holds after a write that failed.\<close>

definition file_after_failure :: "env \<Rightarrow> server \<Rightarrow> feedback list option" where
  "file_after_failure e s = (if fileOpened e then None else dataFile s)"

subsection \<open>Example data\<close>

text \<open>
  A store of three records, an environment whose write succeeds, one whose write fails
  on opening the file and one whose write fails after that, and the body of a valid
  submission. The properties below are evaluated on them.
\<close>

definition ex_env :: env where
  "ex_env = \<lparr>generateId = ''m1x9k2'', nowISO = ''2024-05-01T10:00:00.000Z'', writeFile = None,
            fileOpened = True\<rparr>"

definition ex_env_fail :: env where
  "ex_env_fail = ex_env\<lparr>writeFile := Some ''EACCES: permission denied'', fileOpened := False\<rparr>"

definition ex_env_cut :: env where
  "ex_env_cut = ex_env\<lparr>writeFile := Some ''ENOSPC: no space left on device''\<rparr>"

definition ex_A :: feedback where
  "ex_A = \<lparr>id_f = ''a1'', name = ''Ann'', email = ''ann@example.org'', message = ''Great tool'',
          votes = 1, createdAt = ''2024-04-01T08:00:00.000Z''\<rparr>"

definition ex_B :: feedback where
  "ex_B = \<lparr>id_f = ''b2'', name = ''Bob'', email = ''bob@example.org'', message = ''Needs search'',
          votes = 3, createdAt = ''2024-04-02T08:00:00.000Z''\<rparr>"

definition ex_C :: feedback where
  "ex_C = \<lparr>id_f = ''c3'', name = ''Cy'', email = ''cy@example.org'', message = ''Hello there'',
          votes = 1, createdAt = ''2024-04-03T08:00:00.000Z''\<rparr>"

definition ex_server :: server where
  "ex_server = \<lparr>feedbackStore = [ex_A, ex_B, ex_C], dataFile = Some [ex_A, ex_B, ex_C]\<rparr>"

definition ex_body :: "(string \<times> jsval) list" where
  "ex_body = [(''name'', JStr '' Dan ''), (''email'', JStr ''Dan@Example.org''),
              (''message'', JStr ''hello'')]"

definition ex_down :: "(string \<times> jsval) list" where
  "ex_down = [(''action'', JStr ''downvote'')]"

definition ex_up :: "(string \<times> jsval) list" where
  "ex_up = [(''action'', JStr ''upvote'')]"

lemmas ex_defs = ex_env_def ex_env_fail_def ex_env_cut_def ex_A_def ex_B_def ex_C_def ex_server_def ex_body_def
  ex_down_def ex_up_def

lemmas rx_defs = emailRegex_def Plus_def not_ws_at_def is_ws_def

section \<open>The matcher and the pattern\<close>

lemma nullable_lang: "nullable r \<longleftrightarrow> [] \<in> lang r"
  by (induction r) (auto simp: conc_def intro: star.star_nil)

lemma star_cons_split:
  "c # w \<in> star A \<Longrightarrow> \<exists>u v. w = u @ v \<and> c # u \<in> A \<and> v \<in> star A"
proof (induction "c # w" arbitrary: w rule: star.induct)
  case (star_app u v)
  show ?case
  proof (cases u)
    case Nil
    with star_app show ?thesis by simp
  next
    case (Cons a u')
    with star_app show ?thesis by auto
  qed
qed

lemma conc_cons:
  "c # w \<in> conc A B \<longleftrightarrow> (\<exists>u v. w = u @ v \<and> c # u \<in> A \<and> v \<in> B) \<or> ([] \<in> A \<and> c # w \<in> B)"
  by (auto simp: conc_def Cons_eq_append_conv) 

lemma lang_deriv: "w \<in> lang (deriv c r) \<longleftrightarrow> c # w \<in> lang r"
proof (induction r arbitrary: w)
  case (Seq r s)
  then show ?case
    by (auto simp: conc_cons nullable_lang) (auto simp: conc_def)
next
  case (Star r)
  show ?case
  proof
    assume "w \<in> lang (deriv c (Star r))"
    then obtain u v where "w = u @ v" "c # u \<in> lang r" "v \<in> star (lang r)"
      using Star by (auto simp: conc_def)
    then show "c # w \<in> lang (Star r)"
      using star.star_app [of "c # u" "lang r" v] by simp
  next
    assume "c # w \<in> lang (Star r)"
    then show "w \<in> lang (deriv c (Star r))"
      using star_cons_split [of c w "lang r"] Star by (auto simp: conc_def)
  qed
qed auto

lemma rx_test_lang: "rx_test r s \<longleftrightarrow> s \<in> lang r"
  by (induction s arbitrary: r) (simp_all add: nullable_lang lang_deriv)

lemma star_cls: "w \<in> star {[c] | c. p c} \<longleftrightarrow> list_all p w"
proof
  assume "w \<in> star {[c] | c. p c}"
  then show "list_all p w" by (induction rule: star.induct) auto
next
  assume "list_all p w"
  then show "w \<in> star {[c] | c. p c}"
  proof (induction w)
    case Nil
    show ?case by (rule star.star_nil)
  next
    case (Cons c w)
    then show ?case using star.star_app [of "[c]" "{[c] | c. p c}" w] by auto
  qed
qed

lemma lang_plus_cls: "w \<in> lang (Plus (Cls p)) \<longleftrightarrow> w \<noteq> [] \<and> list_all p w"
proof (cases w)
  case Nil
  then show ?thesis by (auto simp: Plus_def conc_def)
next
  case (Cons a v)
  have "a # v \<in> conc {[c] | c. p c} (star {[c] | c. p c}) \<longleftrightarrow> p a \<and> list_all p v"
  proof
    assume "a # v \<in> conc {[c] | c. p c} (star {[c] | c. p c})"
    then show "p a \<and> list_all p v" by (auto simp: conc_def star_cls)
  next
    assume "p a \<and> list_all p v"
    then have "[a] \<in> {[c] | c. p c}" and "v \<in> star {[c] | c. p c}"
      by (simp_all add: star_cls)
    then have "[a] @ v \<in> conc {[c] | c. p c} (star {[c] | c. p c})"
      unfolding conc_def by blast
    then show "a # v \<in> conc {[c] | c. p c} (star {[c] | c. p c})" by simp
  qed
  with Cons show ?thesis by (simp add: Plus_def)
qed

lemma lang_seq: "w \<in> lang (Seq r s) \<longleftrightarrow> (\<exists>u v. w = u @ v \<and> u \<in> lang r \<and> v \<in> lang s)"
  by (auto simp: conc_def)

lemma lang_chr: "w \<in> lang (Cls (\<lambda>c. c = d)) \<longleftrightarrow> w = [d]"
  by auto

lemma emailRegex_pattern: "rx_test emailRegex s \<longleftrightarrow> spec_email_pattern s"
proof
  assume "rx_test emailRegex s"
  then show "spec_email_pattern s"
    unfolding rx_test_lang emailRegex_def spec_email_pattern_def lang_seq lang_plus_cls lang_chr
    by auto
next
  assume "spec_email_pattern s"
  then obtain a b c where s: "s = a @ [CHR ''@''] @ b @ [CHR ''.''] @ c"
    and ne: "a \<noteq> []" "b \<noteq> []" "c \<noteq> []"
    and ok: "list_all not_ws_at a" "list_all not_ws_at b" "list_all not_ws_at c"
    unfolding spec_email_pattern_def by blast
  have c: "[CHR ''.''] @ c \<in> lang (Seq (Cls (\<lambda>c. c = CHR ''.'')) (Plus (Cls not_ws_at)))"
    unfolding lang_seq lang_plus_cls lang_chr using ne ok by blast
  have b: "b @ [CHR ''.''] @ c
      \<in> lang (Seq (Plus (Cls not_ws_at)) (Seq (Cls (\<lambda>c. c = CHR ''.'')) (Plus (Cls not_ws_at))))"
    unfolding lang_seq [of _ "Plus (Cls not_ws_at)"] lang_plus_cls using c ne ok by blast
  have at: "[CHR ''@''] @ b @ [CHR ''.''] @ c
      \<in> lang (Seq (Cls (\<lambda>c. c = CHR ''@''))
          (Seq (Plus (Cls not_ws_at)) (Seq (Cls (\<lambda>c. c = CHR ''.'')) (Plus (Cls not_ws_at)))))"
    unfolding lang_seq [of _ "Cls (\<lambda>c. c = CHR ''@'')"] lang_chr using b by blast
  have "s \<in> lang emailRegex"
    unfolding emailRegex_def lang_seq [of _ "Plus (Cls not_ws_at)"] lang_plus_cls s
    using at ne ok by blast
  then show "rx_test emailRegex s" by (simp add: rx_test_lang)
qed

section \<open>Strings\<close>

lemma trim_no_ws: "\<forall>c\<in>set s. \<not> is_ws c \<Longrightarrow> trim s = s"
proof -
  assume a: "\<forall>c\<in>set s. \<not> is_ws c"
  then have "dropWhile is_ws s = s" by (cases s) auto
  moreover from a have "dropWhile is_ws (rev s) = rev s" by (cases "rev s") (auto simp: rev_eq_Cons_iff) 
  ultimately show ?thesis by (simp add: trim_def)
qed

lemma not_ws_at_set: "list_all not_ws_at a \<Longrightarrow> \<forall>c\<in>set a. \<not> is_ws c"
  by (auto simp: list_all_iff not_ws_at_def)

lemma is_ws_at_dot: "\<not> is_ws CHR ''@''" "\<not> is_ws CHR ''.''"
  by (simp_all add: is_ws_def)

lemma pattern_no_ws: "spec_email_pattern s \<Longrightarrow> \<forall>c\<in>set s. \<not> is_ws c"
  unfolding spec_email_pattern_def using not_ws_at_set is_ws_at_dot by auto

lemma pattern_trim: "spec_email_pattern s \<Longrightarrow> trim s = s"
  by (rule trim_no_ws) (rule pattern_no_ws)

lemma pattern_nonempty: "spec_email_pattern s \<Longrightarrow> s \<noteq> []"
  by (auto simp: spec_email_pattern_def)

lemma trim_Nil: "trim [] = []"
  by (simp add: trim_def)

section \<open>Sorting\<close>

lemma mset_insert_sorted: "mset (insert_sorted cmp x xs) = add_mset x (mset xs)"
  by (induction xs) auto

lemma mset_array_sort: "mset (array_sort cmp xs) = mset xs"
  by (induction xs) (auto simp: array_sort_def mset_insert_sorted)

lemma set_insert_sorted: "set (insert_sorted cmp x xs) = insert x (set xs)"
  by (metis mset_insert_sorted set_mset_add_mset_insert set_mset_mset)

lemma desc_insert_sorted:
  "sorted_wrt (\<lambda>a b. votes b \<le> votes a) xs
   \<Longrightarrow> sorted_wrt (\<lambda>a b. votes b \<le> votes a) (insert_sorted by_votes x xs)"
  by (induction xs) (auto simp: set_insert_sorted by_votes_def)

lemma desc_array_sort: "sorted_wrt (\<lambda>a b. votes b \<le> votes a) (array_sort by_votes xs)"
proof (induction xs)
  case Nil
  show ?case by (simp add: array_sort_def)
next
  case (Cons x xs)
  then show ?case
    using desc_insert_sorted [of "array_sort by_votes xs" x] by (simp add: array_sort_def)
qed

lemma stable_insert_sorted:
  "filter (\<lambda>y. votes y = v) (insert_sorted by_votes x xs) = filter (\<lambda>y. votes y = v) (x # xs)"
  by (induction xs) (auto simp: by_votes_def)

lemma stable_array_sort:
  "filter (\<lambda>y. votes y = v) (array_sort by_votes xs) = filter (\<lambda>y. votes y = v) xs"
proof (induction xs)
  case Nil
  show ?case by (simp add: array_sort_def)
next
  case (Cons x xs)
  have "filter (\<lambda>y. votes y = v) (array_sort by_votes (x # xs))
        = filter (\<lambda>y. votes y = v) (x # array_sort by_votes xs)"
    by (simp add: array_sort_def stable_insert_sorted del: filter.simps)
  with Cons show ?case by simp
qed

section \<open>The routes, case by case\<close>

lemma json_simps:
  "status (fail_json c m) = c" "success (fail_json c m) = False"
  "status (catch_json m e) = 500" "success (catch_json m e) = False"
  "res_error (catch_json m e) = Some (error_message e)"
  "status (ok_json c m r) = c" "success (ok_json c m r) = True" "res_data (ok_json c m r) = Record r"
  by (simp_all add: fail_json_def catch_json_def ok_json_def)

lemma findIndex_None: "findIndex p xs = None \<longleftrightarrow> (\<forall>x\<in>set xs. \<not> p x)"
  by (induction xs) auto

lemma findIndex_SomeD:
  "findIndex p xs = Some i \<Longrightarrow> i < length xs \<and> p (xs ! i) \<and> (\<forall>j<i. \<not> p (xs ! j))"
proof (induction xs arbitrary: i)
  case Nil
  then show ?case by simp
next
  case (Cons x xs)
  show ?case
  proof (cases "p x")
    case True
    with Cons.prems show ?thesis by simp
  next
    case False
    with Cons.prems obtain k where k: "findIndex p xs = Some k" "i = Suc k" by auto
    from Cons.IH [OF k(1)] False k(2) show ?thesis
      by (auto simp: nth_Cons split: nat.splits)
  qed
qed

lemma findIndex_present:
  "ident \<in> id_f ` set xs \<Longrightarrow> \<exists>i. findIndex (\<lambda>item. id_f item = ident) xs = Some i"
  using findIndex_None [of "\<lambda>item. id_f item = ident" xs] by (cases "findIndex (\<lambda>item. id_f item = ident) xs") auto

lemma findIndex_absent:
  "ident \<notin> id_f ` set xs \<Longrightarrow> findIndex (\<lambda>item. id_f item = ident) xs = None"
  by (auto simp: findIndex_None)

lemma findIndex_update:
  "findIndex (\<lambda>item. id_f item = ident) (xs[i := (xs ! i)\<lparr>votes := v\<rparr>])
   = findIndex (\<lambda>item. id_f item = ident) xs"
proof (induction xs arbitrary: i)
  case Nil
  show ?case by simp
next
  case (Cons x xs)
  show ?case by (cases i) (simp_all add: Cons.IH)
qed

lemma valid_action_cases:
  "truthy a \<and> includes_action a \<longleftrightarrow> a = JStr ''upvote'' \<or> a = JStr ''downvote''"
  by (auto simp: includes_action_def)

lemma put_vote_invalid:
  "body_prop body ''action'' \<noteq> JStr ''upvote'' \<Longrightarrow> body_prop body ''action'' \<noteq> JStr ''downvote''
   \<Longrightarrow> put_vote e ident body s
       = (fail_json 400 ''Action must be either \"upvote\" or \"downvote\"'', s)"
  using valid_action_cases [of "body_prop body ''action''"]
  by (simp add: put_vote_def Let_def)

lemma put_vote_absent:
  "findIndex (\<lambda>item. id_f item = ident) (feedbackStore s) = None
   \<Longrightarrow> body_prop body ''action'' = JStr ''upvote'' \<or> body_prop body ''action'' = JStr ''downvote''
   \<Longrightarrow> put_vote e ident body s = (fail_json 404 ''Feedback not found'', s)"
  by (auto simp: put_vote_def Let_def includes_action_def)

lemma put_vote_found:
  assumes "findIndex (\<lambda>item. id_f item = ident) (feedbackStore s) = Some i"
    and "body_prop body ''action'' = JStr a" and "a = ''upvote'' \<or> a = ''downvote''"
  shows "put_vote e ident body s =
     (let fb = step_votes (JStr a) (feedbackStore s ! i);
          s1 = s\<lparr>feedbackStore := (feedbackStore s)[i := fb]\<rparr>
      in case writeFile e of
           None \<Rightarrow> (ok_json 200 (''Feedback '' @ a @ ''d successfully'') fb,
                    s1\<lparr>dataFile := Some (feedbackStore s1)\<rparr>)
         | Some m \<Rightarrow> (catch_json ''Error updating vote'' (WriteError m),
                      s1\<lparr>dataFile := file_after_failure e s\<rparr>))"
  using assms
  by (auto simp: put_vote_def Let_def includes_action_def step_votes_def saveFeedbackData_def
      file_after_failure_def split: option.splits)

lemma delete_absent:
  "findIndex (\<lambda>item. id_f item = ident) (feedbackStore s) = None
   \<Longrightarrow> delete_feedback e ident s = (fail_json 404 ''Feedback not found'', s)"
  by (simp add: delete_feedback_def)

lemma delete_found:
  assumes "findIndex (\<lambda>item. id_f item = ident) (feedbackStore s) = Some i"
  shows "delete_feedback e ident s =
     (let s1 = s\<lparr>feedbackStore := take i (feedbackStore s) @ drop (Suc i) (feedbackStore s)\<rparr>
      in case writeFile e of
           None \<Rightarrow> (ok_json 200 ''Feedback deleted successfully'' (feedbackStore s ! i),
                    s1\<lparr>dataFile := Some (feedbackStore s1)\<rparr>)
         | Some m \<Rightarrow> (catch_json ''Error deleting feedback'' (WriteError m),
                      s1\<lparr>dataFile := file_after_failure e s\<rparr>))"
proof -
  from findIndex_SomeD [OF assms] have "i < length (feedbackStore s)" by simp
  then have "hd (take 1 (drop i (feedbackStore s))) = feedbackStore s ! i"
    by (simp add: hd_drop_conv_nth)
  with assms show ?thesis
    by (auto simp: delete_feedback_def Let_def splice1_def saveFeedbackData_def
        file_after_failure_def split: option.splits)
qed

lemma post_accept:
  assumes "body_prop body ''name'' = JStr n" and "n \<noteq> []"
    and "body_prop body ''email'' = JStr em" and "rx_test emailRegex em"
    and "body_prop body ''message'' = JStr msg" and "5 \<le> length (trim msg)"
  shows "post_feedback e body s =
     (let newFeedback = \<lparr>id_f = generateId e, name = trim n, email = toLowerCase (trim em),
                         message = trim msg, votes = 0, createdAt = nowISO e\<rparr>;
          s1 = s\<lparr>feedbackStore := feedbackStore s @ [newFeedback]\<rparr>
      in case writeFile e of
           None \<Rightarrow> (ok_json 201 ''Feedback submitted successfully'' newFeedback,
                    s1\<lparr>dataFile := Some (feedbackStore s1)\<rparr>)
         | Some m \<Rightarrow> (catch_json ''Error creating feedback'' (WriteError m),
                      s1\<lparr>dataFile := file_after_failure e s\<rparr>))"
proof -
  have "em \<noteq> []" using assms(4) pattern_nonempty by (simp add: emailRegex_pattern)
  moreover have "msg \<noteq> []" using assms(6) by (auto simp: trim_Nil)
  ultimately show ?thesis using assms
    by (simp add: post_feedback_def Let_def isValidEmail_def saveFeedbackData_def
        file_after_failure_def split: option.splits)
qed

lemma post_reject:
  assumes "\<not> (\<exists>n em msg. body_prop body ''name'' = JStr n \<and> n \<noteq> []
      \<and> body_prop body ''email'' = JStr em \<and> rx_test emailRegex em
      \<and> body_prop body ''message'' = JStr msg \<and> 5 \<le> length (trim msg))"
  shows "snd (post_feedback e body s) = s \<and> status (fst (post_feedback e body s)) \<in> {400, 500}"
proof (cases "body_prop body ''message''")
  case (JStr msg)
  note m = this
  show ?thesis
  proof (cases "body_prop body ''name''")
    case (JStr n)
    note n = this
    show ?thesis
    proof (cases "body_prop body ''email''")
      case (JStr em)
      with assms m n show ?thesis
        by (auto simp: post_feedback_def Let_def isValidEmail_def fail_json_def catch_json_def
            split: sum.splits bool.splits)
    qed (use m n in \<open>auto simp: post_feedback_def Let_def fail_json_def catch_json_def
            split: sum.splits bool.splits\<close>)
  qed (use m in \<open>auto simp: post_feedback_def Let_def fail_json_def catch_json_def
            split: sum.splits bool.splits\<close>)
qed (auto simp: post_feedback_def Let_def fail_json_def catch_json_def
            split: sum.splits bool.splits)

lemma bit_length_0: "bit_length 0 = 0"
  by (subst bit_length.simps) simp

lemma bit_length_numeral:
  "bit_length (numeral (Num.Bit0 n)) = Suc (bit_length (numeral n))"
  "bit_length (numeral (Num.Bit1 n)) = Suc (bit_length (numeral n))"
  "bit_length (Suc 0) = Suc 0"
  by (subst bit_length.simps, simp add: bit_length_0)+

lemma js_add_examples:
  "js_add 1 1 = 2"
  "js_add 9007199254740991 1 = 9007199254740992"
  "js_add 9007199254740992 1 = 9007199254740992"
  "js_add 9007199254740994 1 = 9007199254740996"
  "js_add (- 9007199254740992) (- 1) = - 9007199254740992"
  "js_add 18014398509481984 (- 1) = 18014398509481984"
  by (simp_all add: js_add_def round_double_def bit_length_numeral)

lemma js_add_exact: "\<bar>a + b\<bar> \<le> 2 ^ 53 \<Longrightarrow> js_add a b = a + b"
  by (simp add: js_add_def round_double_def)

lemma vote_store:
  assumes "findIndex (\<lambda>item. id_f item = ident) (feedbackStore s) = Some i"
    and "body_prop body ''action'' = JStr a" and "a = ''upvote'' \<or> a = ''downvote''"
  shows "feedbackStore (snd (put_vote e ident body s))
     = (feedbackStore s)[i := (feedbackStore s ! i)
          \<lparr>votes := js_add (votes (feedbackStore s ! i)) (if a = ''upvote'' then 1 else - 1)\<rparr>]"
  using put_vote_found [OF assms, of e]
  by (simp add: Let_def step_votes_def split: option.splits)

lemma fold_downvote:
  assumes "body_prop body ''action'' = JStr ''downvote''"
  shows "findIndex (\<lambda>item. id_f item = ident) (feedbackStore s) = Some i \<Longrightarrow>
     votes (feedbackStore s ! i) \<le> 2 ^ 53 \<Longrightarrow>
     - (2 ^ 53) \<le> votes (feedbackStore s ! i) - int (length es) \<Longrightarrow>
     feedbackStore (fold (\<lambda>e t. snd (put_vote e ident body t)) es s)
       = (feedbackStore s)[i := (feedbackStore s ! i)
            \<lparr>votes := votes (feedbackStore s ! i) - int (length es)\<rparr>]"
proof (induction es arbitrary: s)
  case Nil
  then show ?case by simp
next
  case (Cons e es)
  let ?st = "feedbackStore s"
  let ?s1 = "snd (put_vote e ident body s)"
  from findIndex_SomeD [OF Cons.prems(1)] have len: "i < length ?st" by simp
  from Cons.prems(2,3) have "\<bar>votes (?st ! i) + (- 1)\<bar> \<le> 2 ^ 53" by simp
  from js_add_exact [OF this] have step: "js_add (votes (?st ! i)) (- 1) = votes (?st ! i) - 1"
    by simp
  have st1: "feedbackStore ?s1 = ?st[i := (?st ! i)\<lparr>votes := votes (?st ! i) - 1\<rparr>]"
    using vote_store [OF Cons.prems(1) assms, of e] step by simp
  then have f1: "findIndex (\<lambda>item. id_f item = ident) (feedbackStore ?s1) = Some i"
    using Cons.prems(1) by (simp add: findIndex_update)
  from st1 len Cons.prems(2) have b1: "votes (feedbackStore ?s1 ! i) \<le> 2 ^ 53" by simp
  from st1 len Cons.prems(3)
  have b2: "- (2 ^ 53) \<le> votes (feedbackStore ?s1 ! i) - int (length es)" by simp
  from Cons.IH [OF f1 b1 b2] st1 len show ?case by (simp add: diff_diff_eq)
qed

lemma post_store_cases:
  "feedbackStore (snd (post_feedback e body s)) = feedbackStore s
      \<or> (\<exists>r. feedbackStore (snd (post_feedback e body s)) = feedbackStore s @ [r] \<and> votes r = 0)"
proof (cases "\<exists>n em msg. body_prop body ''name'' = JStr n \<and> n \<noteq> []
      \<and> body_prop body ''email'' = JStr em \<and> rx_test emailRegex em
      \<and> body_prop body ''message'' = JStr msg \<and> 5 \<le> length (trim msg)")
  case True
  then obtain n em msg where "body_prop body ''name'' = JStr n" "n \<noteq> []"
    "body_prop body ''email'' = JStr em" "rx_test emailRegex em"
    "body_prop body ''message'' = JStr msg" "5 \<le> length (trim msg)" by blast
  from post_accept [OF this, of e s] show ?thesis
    by (simp add: Let_def split: option.splits)
next
  case False
  from post_reject [OF this, of e s] show ?thesis by simp
qed




lemma ex_email_ok: "isValidEmail (JStr ''Dan@Example.org'') = Inr True"
  by (simp add: isValidEmail_def rx_defs)

lemma ex_trims: "trim '' Dan '' = ''Dan''" "trim ''hello'' = ''hello''"
  "trim ''Dan@Example.org'' = ''Dan@Example.org''"
  by (simp_all add: trim_def is_ws_def)

lemma ex_lower: "toLowerCase ''Dan@Example.org'' = ''dan@example.org''"
  by code_simp

lemma get_feedback_example:
  "get_feedback ex_server
     = (\<lparr>status = 200, success = True, res_message = None,
         res_data = Records [ex_B, ex_A, ex_C], res_count = Some 3, res_error = None\<rparr>,
        ex_server)"
  by (simp add: get_feedback_def array_sort_def by_votes_def ex_defs)

lemma ex_index:
  "i < length (feedbackStore ex_server) \<Longrightarrow> id_f (feedbackStore ex_server ! i) = ''c3'' \<Longrightarrow> i = 2"
  by (auto simp: ex_defs less_Suc_eq nth_Cons' split: if_splits)

lemma trim_all_ws: "list_all is_ws n \<Longrightarrow> trim n = []"
  by (auto simp: trim_def list_all_iff dest: set_dropWhileD)

lemma ex_pattern: "spec_email_pattern ''Dan@Example.org''"
  by (simp add: emailRegex_pattern [symmetric] rx_defs)

lemma ex_body_props:
  "body_prop ex_body ''name'' = JStr '' Dan ''"
  "body_prop ex_body ''email'' = JStr ''Dan@Example.org''"
  "body_prop ex_body ''message'' = JStr ''hello''"
  "body_prop ex_down ''action'' = JStr ''downvote''"
  "body_prop ex_up ''action'' = JStr ''upvote''"
  by (simp_all add: ex_defs body_prop_def)

lemma ex_present: "''c3'' \<in> id_f ` set (feedbackStore ex_server)"
  by (simp add: ex_defs)

lemma ex_absent: "''zz'' \<notin> id_f ` set (feedbackStore ex_server)"
  by (simp add: ex_defs)

lemma ex_write: "writeFile ex_env = None" "writeFile ex_env_fail = Some ''EACCES: permission denied''"
  by (simp_all add: ex_defs)


section \<open>Properties of the service\<close>

text \<open>
  \<^bold>\<open>C1.\<close> In every state, \<open>GET /feedback\<close> answers 200 with \<open>success: true\<close>; its \<open>data\<close>
  holds exactly the records of the store, ordered by \<open>votes\<close> descending, records with
  equal votes in their order of insertion; \<open>count\<close> is the length of that list; and the
  store is left as it was.
\<close>

theorem get_feedback_sorted:
  "snd (get_feedback s) = s
   \<and> status (fst (get_feedback s)) = 200
   \<and> success (fst (get_feedback s))
   \<and> (\<exists>xs. res_data (fst (get_feedback s)) = Records xs
         \<and> res_count (fst (get_feedback s)) = Some (length xs)
         \<and> mset xs = mset (feedbackStore s)
         \<and> sorted_wrt (\<lambda>a b. votes b \<le> votes a) xs
         \<and> (\<forall>v. filter (\<lambda>y. votes y = v) xs = filter (\<lambda>y. votes y = v) (feedbackStore s)))"
  by (simp add: get_feedback_def Let_def mset_array_sort desc_array_sort stable_array_sort)

text \<open>
  \<^bold>\<open>C2.\<close> When the write of the file fails, a create, a vote and a delete that passed
  their checks answer 500 with the text of the error, and the store in memory holds the new
  record, the votes after the vote or the shortened list: nothing is rolled back. The file
  is as it was before the request when the write failed on opening it, and holds nothing
  that can be loaded when it failed later. So when the write failed after opening the
  file, or the file held the store of before the request, the file does not hold the store
  that memory holds after the answer; for a vote this needs the vote to change the number,
  which it does while the result is at most \<open>2^53\<close> in magnitude.
\<close>

theorem write_failure_keeps_mutation:
  assumes "writeFile e = Some m"
  shows "(body_prop body ''name'' = JStr n \<and> n \<noteq> [] \<and> body_prop body ''email'' = JStr em
          \<and> isValidEmail (JStr em) = Inr True
          \<and> body_prop body ''message'' = JStr msg \<and> 5 \<le> length (trim msg) \<longrightarrow>
          post_feedback e body s
            = (catch_json ''Error creating feedback'' (WriteError m),
               s\<lparr>feedbackStore := feedbackStore s @
                   [\<lparr>id_f = generateId e, name = trim n, email = toLowerCase (trim em),
                     message = trim msg, votes = 0, createdAt = nowISO e\<rparr>],
                 dataFile := file_after_failure e s\<rparr>)
          \<and> (fileOpened e \<or> dataFile s = Some (feedbackStore s) \<longrightarrow>
               dataFile (snd (post_feedback e body s))
                 \<noteq> Some (feedbackStore (snd (post_feedback e body s)))))
    \<and> (ident \<in> id_f ` set (feedbackStore s)
          \<and> (body_prop vbody ''action'' = JStr ''upvote''
              \<or> body_prop vbody ''action'' = JStr ''downvote'') \<longrightarrow>
          (\<exists>i<length (feedbackStore s). id_f (feedbackStore s ! i) = ident \<and>
             put_vote e ident vbody s
                = (catch_json ''Error updating vote'' (WriteError m),
                   s\<lparr>feedbackStore := (feedbackStore s)
                       [i := (feedbackStore s ! i)
                          \<lparr>votes := js_add (votes (feedbackStore s ! i))
                             (if body_prop vbody ''action'' = JStr ''upvote'' then 1 else - 1)\<rparr>],
                     dataFile := file_after_failure e s\<rparr>)
           \<and> ((fileOpened e \<or> dataFile s = Some (feedbackStore s))
                \<and> \<bar>votes (feedbackStore s ! i)
                     + (if body_prop vbody ''action'' = JStr ''upvote'' then 1 else - 1)\<bar> \<le> 2 ^ 53
                \<longrightarrow> dataFile (snd (put_vote e ident vbody s))
                      \<noteq> Some (feedbackStore (snd (put_vote e ident vbody s))))))
    \<and> (ident \<in> id_f ` set (feedbackStore s) \<longrightarrow>
          (\<exists>i<length (feedbackStore s). id_f (feedbackStore s ! i) = ident \<and>
             delete_feedback e ident s
                = (catch_json ''Error deleting feedback'' (WriteError m),
                   s\<lparr>feedbackStore := take i (feedbackStore s) @ drop (Suc i) (feedbackStore s),
                     dataFile := file_after_failure e s\<rparr>)
           \<and> (fileOpened e \<or> dataFile s = Some (feedbackStore s) \<longrightarrow>
                dataFile (snd (delete_feedback e ident s))
                  \<noteq> Some (feedbackStore (snd (delete_feedback e ident s))))))
    \<and> catch_json x (WriteError m)
        = \<lparr>status = 500, success = False, res_message = Some x, res_data = NoData,
           res_count = None, res_error = Some m\<rparr>"
proof -
  let ?st = "feedbackStore s"
  have differs: "file_after_failure e s \<noteq> Some xs"
    if "fileOpened e \<or> dataFile s = Some ?st" "xs \<noteq> ?st" for xs
    using that by (auto simp: file_after_failure_def)
  have create: "post_feedback e body s
            = (catch_json ''Error creating feedback'' (WriteError m),
               s\<lparr>feedbackStore := ?st @
                   [\<lparr>id_f = generateId e, name = trim n, email = toLowerCase (trim em),
                     message = trim msg, votes = 0, createdAt = nowISO e\<rparr>],
                 dataFile := file_after_failure e s\<rparr>)
          \<and> (fileOpened e \<or> dataFile s = Some ?st \<longrightarrow>
               dataFile (snd (post_feedback e body s))
                 \<noteq> Some (feedbackStore (snd (post_feedback e body s))))"
    if "body_prop body ''name'' = JStr n" "n \<noteq> []" "body_prop body ''email'' = JStr em"
       "isValidEmail (JStr em) = Inr True" "body_prop body ''message'' = JStr msg"
       "5 \<le> length (trim msg)"
  proof -
    from that(4) have "rx_test emailRegex em" by (simp add: isValidEmail_def)
    from post_accept [OF that(1,2,3) this that(5,6), of e s] assms
    have eq: "post_feedback e body s
            = (catch_json ''Error creating feedback'' (WriteError m),
               s\<lparr>feedbackStore := ?st @
                   [\<lparr>id_f = generateId e, name = trim n, email = toLowerCase (trim em),
                     message = trim msg, votes = 0, createdAt = nowISO e\<rparr>],
                 dataFile := file_after_failure e s\<rparr>)"
      by (simp add: Let_def)
    moreover have "file_after_failure e s \<noteq> Some (?st @ [r])"
      if "fileOpened e \<or> dataFile s = Some ?st" for r
      using differs [OF that, of "?st @ [r]"] by simp
    ultimately show ?thesis by simp
  qed
  have vote: "\<exists>i<length ?st. id_f (?st ! i) = ident \<and>
             put_vote e ident vbody s
                = (catch_json ''Error updating vote'' (WriteError m),
                   s\<lparr>feedbackStore := ?st
                       [i := (?st ! i)
                          \<lparr>votes := js_add (votes (?st ! i))
                             (if body_prop vbody ''action'' = JStr ''upvote'' then 1 else - 1)\<rparr>],
                     dataFile := file_after_failure e s\<rparr>)
           \<and> ((fileOpened e \<or> dataFile s = Some ?st)
                \<and> \<bar>votes (?st ! i)
                     + (if body_prop vbody ''action'' = JStr ''upvote'' then 1 else - 1)\<bar> \<le> 2 ^ 53
                \<longrightarrow> dataFile (snd (put_vote e ident vbody s))
                      \<noteq> Some (feedbackStore (snd (put_vote e ident vbody s))))"
    if "ident \<in> id_f ` set ?st"
       "body_prop vbody ''action'' = JStr ''upvote'' \<or> body_prop vbody ''action'' = JStr ''downvote''"
  proof -
    let ?d = "if body_prop vbody ''action'' = JStr ''upvote'' then 1 else - 1 :: int"
    from findIndex_present [OF that(1)] obtain i
      where i: "findIndex (\<lambda>item. id_f item = ident) ?st = Some i" by blast
    from findIndex_SomeD [OF i]
    have len: "i < length ?st" and idi: "id_f (?st ! i) = ident"
      by simp_all
    from that(2) obtain a where a: "body_prop vbody ''action'' = JStr a"
        "a = ''upvote'' \<or> a = ''downvote''"
      by blast
    let ?new = "?st[i := (?st ! i)\<lparr>votes := js_add (votes (?st ! i)) ?d\<rparr>]"
    have eq: "put_vote e ident vbody s
                = (catch_json ''Error updating vote'' (WriteError m),
                   s\<lparr>feedbackStore := ?new, dataFile := file_after_failure e s\<rparr>)"
      using put_vote_found [OF i a, of e] assms a by (auto simp: Let_def step_votes_def)
    have "file_after_failure e s \<noteq> Some ?new"
      if sync: "fileOpened e \<or> dataFile s = Some ?st" and range: "\<bar>votes (?st ! i) + ?d\<bar> \<le> 2 ^ 53"
    proof -
      from js_add_exact [OF range] have "js_add (votes (?st ! i)) ?d \<noteq> votes (?st ! i)"
        by simp
      then have "votes (?new ! i) \<noteq> votes (?st ! i)" using len by simp
      then have "?new \<noteq> ?st" by metis
      from differs [OF sync this] show ?thesis .
    qed
    with eq have "(fileOpened e \<or> dataFile s = Some ?st) \<and> \<bar>votes (?st ! i) + ?d\<bar> \<le> 2 ^ 53
        \<longrightarrow> dataFile (snd (put_vote e ident vbody s))
              \<noteq> Some (feedbackStore (snd (put_vote e ident vbody s)))"
      by simp
    with len idi eq show ?thesis by blast
  qed
  have del: "\<exists>i<length ?st. id_f (?st ! i) = ident \<and>
             delete_feedback e ident s
                = (catch_json ''Error deleting feedback'' (WriteError m),
                   s\<lparr>feedbackStore := take i ?st @ drop (Suc i) ?st,
                     dataFile := file_after_failure e s\<rparr>)
           \<and> (fileOpened e \<or> dataFile s = Some ?st \<longrightarrow>
                dataFile (snd (delete_feedback e ident s))
                  \<noteq> Some (feedbackStore (snd (delete_feedback e ident s))))"
    if "ident \<in> id_f ` set ?st"
  proof -
    from findIndex_present [OF that] obtain i
      where i: "findIndex (\<lambda>item. id_f item = ident) ?st = Some i" by blast
    from findIndex_SomeD [OF i]
    have len: "i < length ?st" and idi: "id_f (?st ! i) = ident"
      by simp_all
    have eq: "delete_feedback e ident s
                = (catch_json ''Error deleting feedback'' (WriteError m),
                   s\<lparr>feedbackStore := take i ?st @ drop (Suc i) ?st,
                     dataFile := file_after_failure e s\<rparr>)"
      using delete_found [OF i, of e] assms by (simp add: Let_def)
    have "length (take i ?st @ drop (Suc i) ?st) \<noteq> length ?st" using len by simp
    then have "take i ?st @ drop (Suc i) ?st \<noteq> ?st" by metis
    then have "file_after_failure e s \<noteq> Some (take i ?st @ drop (Suc i) ?st)"
      if "fileOpened e \<or> dataFile s = Some ?st"
      using differs [OF that] by simp
    with eq have "fileOpened e \<or> dataFile s = Some ?st \<longrightarrow>
                dataFile (snd (delete_feedback e ident s))
                  \<noteq> Some (feedbackStore (snd (delete_feedback e ident s)))"
      by simp
    with len idi eq show ?thesis by blast
  qed
  have "catch_json x (WriteError m)
        = \<lparr>status = 500, success = False, res_message = Some x, res_data = NoData,
           res_count = None, res_error = Some m\<rparr>"
    by (simp add: catch_json_def)
  with create vote del show ?thesis by blast
qed

theorem write_failure_keeps_mutation_witness:
  "writeFile ex_env_fail = Some ''EACCES: permission denied''
   \<and> dataFile ex_server = Some (feedbackStore ex_server)
   \<and> post_feedback ex_env_fail ex_body ex_server
      = (\<lparr>status = 500, success = False, res_message = Some ''Error creating feedback'',
          res_data = NoData, res_count = None, res_error = Some ''EACCES: permission denied''\<rparr>,
         \<lparr>feedbackStore = [ex_A, ex_B, ex_C,
             \<lparr>id_f = ''m1x9k2'', name = ''Dan'', email = ''dan@example.org'', message = ''hello'',
              votes = 0, createdAt = ''2024-05-01T10:00:00.000Z''\<rparr>],
          dataFile = Some [ex_A, ex_B, ex_C]\<rparr>)
   \<and> dataFile (snd (post_feedback ex_env_fail ex_body ex_server))
       \<noteq> Some (feedbackStore (snd (post_feedback ex_env_fail ex_body ex_server)))
   \<and> put_vote ex_env_fail ''c3'' ex_down ex_server
      = (\<lparr>status = 500, success = False, res_message = Some ''Error updating vote'',
          res_data = NoData, res_count = None, res_error = Some ''EACCES: permission denied''\<rparr>,
         \<lparr>feedbackStore = [ex_A, ex_B, ex_C\<lparr>votes := 0\<rparr>],
          dataFile = Some [ex_A, ex_B, ex_C]\<rparr>)
   \<and> writeFile ex_env_cut = Some ''ENOSPC: no space left on device''
   \<and> fileOpened ex_env_cut
   \<and> delete_feedback ex_env_cut ''c3'' ex_server
      = (\<lparr>status = 500, success = False, res_message = Some ''Error deleting feedback'',
          res_data = NoData, res_count = None,
          res_error = Some ''ENOSPC: no space left on device''\<rparr>,
         \<lparr>feedbackStore = [ex_A, ex_B], dataFile = None\<rparr>)"
proof -
  let ?m = "''EACCES: permission denied''"
  let ?m2 = "''ENOSPC: no space left on device''"
  have h: "writeFile ex_env_fail = Some ?m" and h2: "writeFile ex_env_cut = Some ?m2"
    and op: "fileOpened ex_env_cut" and nop: "\<not> fileOpened ex_env_fail"
    by (simp_all add: ex_defs)
  have sync: "dataFile ex_server = Some (feedbackStore ex_server)"
    by (simp add: ex_server_def)
  note t = write_failure_keeps_mutation [OF h, where body = ex_body and n = "'' Dan ''"
      and em = "''Dan@Example.org''" and msg = "''hello''" and s = ex_server
      and vbody = ex_down and ident = "''c3''"]
  have hy: "body_prop ex_body ''name'' = JStr '' Dan '' \<and> '' Dan '' \<noteq> []
      \<and> body_prop ex_body ''email'' = JStr ''Dan@Example.org''
      \<and> isValidEmail (JStr ''Dan@Example.org'') = Inr True
      \<and> body_prop ex_body ''message'' = JStr ''hello'' \<and> 5 \<le> length (trim ''hello'')"
    using ex_body_props(1,2,3) ex_email_ok by (simp add: ex_trims)
  note cr = mp [OF t [THEN conjunct1] hy]
  from cr
  have c1: "post_feedback ex_env_fail ex_body ex_server
            = (catch_json ''Error creating feedback'' (WriteError ?m),
               ex_server\<lparr>feedbackStore := feedbackStore ex_server @
                   [\<lparr>id_f = generateId ex_env_fail, name = trim '' Dan '',
                     email = toLowerCase (trim ''Dan@Example.org''),
                     message = trim ''hello'', votes = 0, createdAt = nowISO ex_env_fail\<rparr>],
                 dataFile := file_after_failure ex_env_fail ex_server\<rparr>)"
    and c2: "fileOpened ex_env_fail \<or> dataFile ex_server = Some (feedbackStore ex_server) \<longrightarrow>
       dataFile (snd (post_feedback ex_env_fail ex_body ex_server))
         \<noteq> Some (feedbackStore (snd (post_feedback ex_env_fail ex_body ex_server)))"
    by (rule conjunct1, rule conjunct2)
  from c1 have create: "post_feedback ex_env_fail ex_body ex_server
      = (\<lparr>status = 500, success = False, res_message = Some ''Error creating feedback'',
          res_data = NoData, res_count = None, res_error = Some ?m\<rparr>,
         \<lparr>feedbackStore = [ex_A, ex_B, ex_C,
             \<lparr>id_f = ''m1x9k2'', name = ''Dan'', email = ''dan@example.org'', message = ''hello'',
              votes = 0, createdAt = ''2024-05-01T10:00:00.000Z''\<rparr>],
          dataFile = Some [ex_A, ex_B, ex_C]\<rparr>)"
    by (simp add: file_after_failure_def ex_trims ex_lower catch_json_def ex_server_def
        ex_env_fail_def ex_env_def)
  from c2 sync
  have unequal: "dataFile (snd (post_feedback ex_env_fail ex_body ex_server))
         \<noteq> Some (feedbackStore (snd (post_feedback ex_env_fail ex_body ex_server)))"
    by blast
  have hv: "''c3'' \<in> id_f ` set (feedbackStore ex_server)
      \<and> (body_prop ex_down ''action'' = JStr ''upvote''
          \<or> body_prop ex_down ''action'' = JStr ''downvote'')"
    using ex_present ex_body_props(4) by simp
  from mp [OF t [THEN conjunct2, THEN conjunct1] hv]
  obtain i where i: "i < length (feedbackStore ex_server)"
      "id_f (feedbackStore ex_server ! i) = ''c3''"
    and v: "put_vote ex_env_fail ''c3'' ex_down ex_server
       = (catch_json ''Error updating vote'' (WriteError ?m),
          ex_server\<lparr>feedbackStore := (feedbackStore ex_server)
             [i := (feedbackStore ex_server ! i)
                \<lparr>votes := js_add (votes (feedbackStore ex_server ! i))
                   (if body_prop ex_down ''action'' = JStr ''upvote'' then 1 else - 1)\<rparr>],
            dataFile := file_after_failure ex_env_fail ex_server\<rparr>)"
    by (elim exE conjE) simp
  have step: "js_add 1 (- 1) = 0" by (simp add: js_add_def round_double_def)
  from ex_index [OF i] v ex_body_props(4)
  have vote: "put_vote ex_env_fail ''c3'' ex_down ex_server
      = (\<lparr>status = 500, success = False, res_message = Some ''Error updating vote'',
          res_data = NoData, res_count = None, res_error = Some ?m\<rparr>,
         \<lparr>feedbackStore = [ex_A, ex_B, ex_C\<lparr>votes := 0\<rparr>],
          dataFile = Some [ex_A, ex_B, ex_C]\<rparr>)"
    by (simp add: file_after_failure_def step catch_json_def ex_server_def ex_C_def
        ex_env_fail_def ex_env_def)
  from mp [OF write_failure_keeps_mutation [OF h2, where ident = "''c3''" and s = ex_server,
        THEN conjunct2, THEN conjunct2, THEN conjunct1] ex_present]
  obtain j where j: "j < length (feedbackStore ex_server)"
      "id_f (feedbackStore ex_server ! j) = ''c3''"
    and d: "delete_feedback ex_env_cut ''c3'' ex_server
       = (catch_json ''Error deleting feedback'' (WriteError ?m2),
          ex_server\<lparr>feedbackStore := take j (feedbackStore ex_server)
             @ drop (Suc j) (feedbackStore ex_server),
            dataFile := file_after_failure ex_env_cut ex_server\<rparr>)"
    by (elim exE conjE) simp
  from ex_index [OF j] d
  have del: "delete_feedback ex_env_cut ''c3'' ex_server
      = (\<lparr>status = 500, success = False, res_message = Some ''Error deleting feedback'',
          res_data = NoData, res_count = None, res_error = Some ?m2\<rparr>,
         \<lparr>feedbackStore = [ex_A, ex_B], dataFile = None\<rparr>)"
    by (simp add: file_after_failure_def catch_json_def ex_server_def ex_env_cut_def ex_env_def)
  from h sync create unequal vote h2 op del show ?thesis by blast
qed

text \<open>
  Two votes whose writes fail on opening the file, an upvote and then a downvote, starting
  from a file that holds the store: after the second 500 the file holds exactly the store
  that memory holds.
\<close>

theorem file_equals_memory_after_failed_votes:
  "writeFile ex_env_fail = Some ''EACCES: permission denied''
   \<and> dataFile ex_server = Some (feedbackStore ex_server)
   \<and> status (fst (put_vote ex_env_fail ''c3'' ex_up ex_server)) = 500
   \<and> status (fst (put_vote ex_env_fail ''c3'' ex_down
         (snd (put_vote ex_env_fail ''c3'' ex_up ex_server)))) = 500
   \<and> feedbackStore (snd (put_vote ex_env_fail ''c3'' ex_down
         (snd (put_vote ex_env_fail ''c3'' ex_up ex_server)))) = [ex_A, ex_B, ex_C]
   \<and> dataFile (snd (put_vote ex_env_fail ''c3'' ex_down
         (snd (put_vote ex_env_fail ''c3'' ex_up ex_server))))
       = Some (feedbackStore (snd (put_vote ex_env_fail ''c3'' ex_down
            (snd (put_vote ex_env_fail ''c3'' ex_up ex_server)))))"
proof -
  have up: "put_vote ex_env_fail ''c3'' ex_up ex_server
     = (catch_json ''Error updating vote'' (WriteError ''EACCES: permission denied''),
        \<lparr>feedbackStore = [ex_A, ex_B, ex_C\<lparr>votes := 2\<rparr>], dataFile = Some [ex_A, ex_B, ex_C]\<rparr>)"
    by (simp add: put_vote_def body_prop_def includes_action_def saveFeedbackData_def
        js_add_def round_double_def ex_defs)
  have down: "put_vote ex_env_fail ''c3'' ex_down
        \<lparr>feedbackStore = [ex_A, ex_B, ex_C\<lparr>votes := 2\<rparr>], dataFile = Some [ex_A, ex_B, ex_C]\<rparr>
     = (catch_json ''Error updating vote'' (WriteError ''EACCES: permission denied''),
        \<lparr>feedbackStore = [ex_A, ex_B, ex_C], dataFile = Some [ex_A, ex_B, ex_C]\<rparr>)"
    by (simp add: put_vote_def body_prop_def includes_action_def saveFeedbackData_def
        js_add_def round_double_def ex_defs)
  show ?thesis
    by (simp add: up down catch_json_def) (simp add: ex_defs)
qed

text \<open>
  \<^bold>\<open>C3.\<close> The stored name is the trimmed submitted name, and an empty name is refused by
  the check for required fields. That check reads the name before it is trimmed: a name
  that is not empty and holds white space only passes it, the request is answered 201,
  and the record is stored with the empty string as its name.
\<close>

theorem blank_name_stored_empty:
  assumes "body_prop body ''name'' = JStr n" and "n \<noteq> []" and "list_all is_ws n"
    and "body_prop body ''email'' = JStr em" and "isValidEmail (JStr em) = Inr True"
    and "body_prop body ''message'' = JStr msg" and "5 \<le> length (trim msg)"
    and "writeFile e = None"
  shows "status (fst (post_feedback e body s)) = 201
       \<and> feedbackStore (snd (post_feedback e body s))
           = feedbackStore s @
               [\<lparr>id_f = generateId e, name = [], email = toLowerCase (trim em),
                 message = trim msg, votes = 0, createdAt = nowISO e\<rparr>]"
proof -
  from assms(5) have "rx_test emailRegex em" by (simp add: isValidEmail_def)
  from post_accept [OF assms(1,2,4) this assms(6,7), of e s] assms(8) trim_all_ws [OF assms(3)]
  show ?thesis by (simp add: Let_def ok_json_def)
qed

theorem blank_name_stored_empty_witness:
  "body_prop [(''name'', JStr ''   ''), (''email'', JStr ''Dan@Example.org''),
              (''message'', JStr ''hello'')] ''name'' = JStr ''   ''
   \<and> list_all is_ws ''   ''
   \<and> isValidEmail (JStr ''Dan@Example.org'') = Inr True
   \<and> 5 \<le> length (trim ''hello'')
   \<and> writeFile ex_env = None
   \<and> status (fst (post_feedback ex_env
        [(''name'', JStr ''   ''), (''email'', JStr ''Dan@Example.org''),
         (''message'', JStr ''hello'')] ex_server)) = 201
   \<and> map name (feedbackStore (snd (post_feedback ex_env
        [(''name'', JStr ''   ''), (''email'', JStr ''Dan@Example.org''),
         (''message'', JStr ''hello'')] ex_server))) = [''Ann'', ''Bob'', ''Cy'', '''']"
proof -
  let ?body = "[(''name'', JStr ''   ''), (''email'', JStr ''Dan@Example.org''),
         (''message'', JStr ''hello'')]"
  have b: "body_prop ?body ''name'' = JStr ''   ''"
    "body_prop ?body ''email'' = JStr ''Dan@Example.org''"
    "body_prop ?body ''message'' = JStr ''hello''"
    by (simp_all add: body_prop_def)
  have ws: "list_all is_ws ''   ''" by (simp add: is_ws_def)
  have len: "5 \<le> length (trim ''hello'')" by (simp add: ex_trims)
  have w: "writeFile ex_env = None" by (simp add: ex_defs)
  have ne: "''   '' \<noteq> []" by simp
  from blank_name_stored_empty [OF b(1) ne ws b(2) ex_email_ok b(3) len w, of ex_server]
  have "status (fst (post_feedback ex_env ?body ex_server)) = 201"
    and "map name (feedbackStore (snd (post_feedback ex_env ?body ex_server)))
          = [''Ann'', ''Bob'', ''Cy'', '''']"
    by (simp_all add: ex_server_def ex_A_def ex_B_def ex_C_def)
  with b(1) ws ex_email_ok len w show ?thesis by blast
qed

text \<open>
  \<^bold>\<open>C4.\<close> \<open>POST /feedback\<close> checks the format of the email as it was submitted, before
  it is trimmed and put in lower case. With a non-empty string name, a string message of
  trimmed length at least 5 and a write that succeeds, the request is accepted exactly when
  the submitted email is a string that matches the pattern: one or more characters that are
  neither white space nor \<open>@\<close>, an \<open>@\<close>, one or more such characters, a \<open>.\<close>, one or more
  such characters. The stored email is then the trimmed, lower case form, and trimming
  changes nothing in it. A non-empty string email that does not match is answered 400 with
  the message about the email, and the state stays as it was.
\<close>

theorem email_checked_as_submitted:
  assumes "body_prop body ''name'' = JStr n" and "n \<noteq> []"
    and "body_prop body ''message'' = JStr msg" and "5 \<le> length (trim msg)"
    and "writeFile e = None"
  shows "(status (fst (post_feedback e body s)) = 201
            \<longleftrightarrow> (\<exists>em. body_prop body ''email'' = JStr em \<and> spec_email_pattern em))
       \<and> (\<forall>em. body_prop body ''email'' = JStr em \<and> spec_email_pattern em \<longrightarrow>
            trim em = em
          \<and> feedbackStore (snd (post_feedback e body s))
              = feedbackStore s @
                  [\<lparr>id_f = generateId e, name = trim n, email = toLowerCase (trim em),
                    message = trim msg, votes = 0, createdAt = nowISO e\<rparr>])
       \<and> (\<forall>em. body_prop body ''email'' = JStr em \<and> em \<noteq> [] \<and> \<not> spec_email_pattern em \<longrightarrow>
            post_feedback e body s
              = (\<lparr>status = 400, success = False,
                  res_message = Some ''Please provide a valid email address'',
                  res_data = NoData, res_count = None, res_error = None\<rparr>, s))"
proof -
  have acc: "status (fst (post_feedback e body s)) = 201
     \<and> feedbackStore (snd (post_feedback e body s))
              = feedbackStore s @
                  [\<lparr>id_f = generateId e, name = trim n, email = toLowerCase (trim em),
                    message = trim msg, votes = 0, createdAt = nowISO e\<rparr>]"
    if "body_prop body ''email'' = JStr em" "spec_email_pattern em" for em
  proof -
    from that(2) have "rx_test emailRegex em" by (simp add: emailRegex_pattern)
    from post_accept [OF assms(1,2) that(1) this assms(3,4), of e s] assms(5)
    show ?thesis by (simp add: Let_def ok_json_def)
  qed
  have rej: "post_feedback e body s
              = (\<lparr>status = 400, success = False,
                  res_message = Some ''Please provide a valid email address'',
                  res_data = NoData, res_count = None, res_error = None\<rparr>, s)"
    if "body_prop body ''email'' = JStr em" "em \<noteq> []" "\<not> spec_email_pattern em" for em
  proof -
    from that(3) have "isValidEmail (JStr em) = Inr False"
      by (simp add: isValidEmail_def emailRegex_pattern)
    moreover from assms(4) have "msg \<noteq> []" by (auto simp: trim_Nil)
    ultimately show ?thesis using that(1,2) assms(1,2,3)
      by (simp add: post_feedback_def Let_def fail_json_def)
  qed
  have only: "\<exists>em. body_prop body ''email'' = JStr em \<and> spec_email_pattern em"
    if st: "status (fst (post_feedback e body s)) = 201"
  proof (rule ccontr)
    assume no: "\<not> (\<exists>em. body_prop body ''email'' = JStr em \<and> spec_email_pattern em)"
    then have "\<not> (\<exists>n em msg. body_prop body ''name'' = JStr n \<and> n \<noteq> []
      \<and> body_prop body ''email'' = JStr em \<and> rx_test emailRegex em
      \<and> body_prop body ''message'' = JStr msg \<and> 5 \<le> length (trim msg))"
      by (auto simp: emailRegex_pattern)
    from post_reject [OF this, of e s] st show False by simp
  qed
  from acc rej only pattern_trim show ?thesis by blast
qed

theorem email_checked_as_submitted_witness:
  "body_prop ex_body ''name'' = JStr '' Dan ''
   \<and> body_prop ex_body ''message'' = JStr ''hello''
   \<and> 5 \<le> length (trim ''hello'')
   \<and> writeFile ex_env = None
   \<and> body_prop ex_body ''email'' = JStr ''Dan@Example.org''
   \<and> spec_email_pattern ''Dan@Example.org''
   \<and> status (fst (post_feedback ex_env ex_body ex_server)) = 201
   \<and> map email (feedbackStore (snd (post_feedback ex_env ex_body ex_server)))
       = [''ann@example.org'', ''bob@example.org'', ''cy@example.org'', ''dan@example.org'']"
proof -
  have ne: "'' Dan '' \<noteq> []" by simp
  have len: "5 \<le> length (trim ''hello'')" by (simp add: ex_trims)
  note t = email_checked_as_submitted [OF ex_body_props(1) ne ex_body_props(3) len ex_write(1),
      of ex_server]
  from t ex_body_props(2) ex_pattern
  have st: "status (fst (post_feedback ex_env ex_body ex_server)) = 201" by blast
  from t ex_body_props(2) ex_pattern
  have "feedbackStore (snd (post_feedback ex_env ex_body ex_server))
      = feedbackStore ex_server @
          [\<lparr>id_f = generateId ex_env, name = trim '' Dan '',
            email = toLowerCase (trim ''Dan@Example.org''),
            message = trim ''hello'', votes = 0, createdAt = nowISO ex_env\<rparr>]"
    by blast
  then have "map email (feedbackStore (snd (post_feedback ex_env ex_body ex_server)))
       = [''ann@example.org'', ''bob@example.org'', ''cy@example.org'', ''dan@example.org'']"
    by (simp add: ex_trims ex_lower ex_server_def ex_A_def ex_B_def ex_C_def)
  with ex_body_props(1,2,3) len ex_write(1) ex_pattern st show ?thesis by blast
qed

text \<open>
  An email with a space on each side: its trimmed, lower case form matches the pattern,
  and the request is refused.
\<close>

theorem padded_email_rejected:
  "spec_email_pattern (toLowerCase (trim '' dan@example.org ''))
   \<and> post_feedback ex_env
        [(''name'', JStr ''Dan''), (''email'', JStr '' dan@example.org ''),
         (''message'', JStr ''hello'')] ex_server
      = (\<lparr>status = 400, success = False,
          res_message = Some ''Please provide a valid email address'',
          res_data = NoData, res_count = None, res_error = None\<rparr>, ex_server)"
proof -
  have "trim '' dan@example.org '' = ''dan@example.org''"
    by (simp add: trim_def is_ws_def)
  moreover have "toLowerCase ''dan@example.org'' = ''dan@example.org''"
    by code_simp
  moreover have "spec_email_pattern ''dan@example.org''"
    by (simp add: emailRegex_pattern [symmetric] rx_defs)
  ultimately have "spec_email_pattern (toLowerCase (trim '' dan@example.org ''))"
    by simp
  moreover have "post_feedback ex_env
        [(''name'', JStr ''Dan''), (''email'', JStr '' dan@example.org ''),
         (''message'', JStr ''hello'')] ex_server
      = (\<lparr>status = 400, success = False,
          res_message = Some ''Please provide a valid email address'',
          res_data = NoData, res_count = None, res_error = None\<rparr>, ex_server)"
    by (simp add: post_feedback_def body_prop_def isValidEmail_def rx_defs fail_json_def)
  ultimately show ?thesis by blast
qed

text \<open>
  \<^bold>\<open>C5.\<close> A request to create leaves the store as it was or appends one record whose
  \<open>votes\<close> is 0. A vote on an id of the store finds the first record with that id and,
  whether the write succeeds or not, replaces its \<open>votes\<close> by \<open>votes + 1\<close> for \<open>upvote\<close> and
  by \<open>votes - 1\<close> for \<open>downvote\<close>, as long as the result is at most \<open>2^53\<close> in magnitude, the
  range in which a JavaScript number holds every integer. Zero is no lower bound: \<open>k\<close>
  downvotes turn \<open>votes\<close> into \<open>votes - k\<close> while that is not below \<open>-2^53\<close>, and some number
  of downvotes makes the votes negative.
\<close>

theorem votes_start_at_zero_and_step_by_one:
  "(feedbackStore (snd (post_feedback e body s)) = feedbackStore s
      \<or> (\<exists>r. feedbackStore (snd (post_feedback e body s)) = feedbackStore s @ [r] \<and> votes r = 0))
   \<and> (ident \<in> id_f ` set (feedbackStore s) \<longrightarrow>
        (\<exists>i<length (feedbackStore s).
            id_f (feedbackStore s ! i) = ident \<and> (\<forall>j<i. id_f (feedbackStore s ! j) \<noteq> ident)
          \<and> (body_prop vbody ''action'' = JStr ''upvote''
              \<and> \<bar>votes (feedbackStore s ! i) + 1\<bar> \<le> 2 ^ 53 \<longrightarrow>
               feedbackStore (snd (put_vote e ident vbody s))
                 = (feedbackStore s)[i := (feedbackStore s ! i)
                      \<lparr>votes := votes (feedbackStore s ! i) + 1\<rparr>])
          \<and> (body_prop vbody ''action'' = JStr ''downvote''
              \<and> \<bar>votes (feedbackStore s ! i) - 1\<bar> \<le> 2 ^ 53 \<longrightarrow>
               feedbackStore (snd (put_vote e ident vbody s))
                 = (feedbackStore s)[i := (feedbackStore s ! i)
                      \<lparr>votes := votes (feedbackStore s ! i) - 1\<rparr>])
          \<and> (body_prop vbody ''action'' = JStr ''downvote'' \<longrightarrow>
               (\<forall>es. votes (feedbackStore s ! i) \<le> 2 ^ 53
                    \<and> - (2 ^ 53) \<le> votes (feedbackStore s ! i) - int (length es) \<longrightarrow>
                  feedbackStore (fold (\<lambda>e t. snd (put_vote e ident vbody t)) es s)
                    = (feedbackStore s)[i := (feedbackStore s ! i)
                        \<lparr>votes := votes (feedbackStore s ! i) - int (length es)\<rparr>])
             \<and> (\<bar>votes (feedbackStore s ! i)\<bar> \<le> 2 ^ 53 \<longrightarrow>
                 (\<exists>k. votes (feedbackStore
                   (fold (\<lambda>e t. snd (put_vote e ident vbody t)) (replicate k e) s) ! i) < 0)))))"
proof -
  have created: "feedbackStore (snd (post_feedback e body s)) = feedbackStore s
      \<or> (\<exists>r. feedbackStore (snd (post_feedback e body s)) = feedbackStore s @ [r] \<and> votes r = 0)"
    by (rule post_store_cases)
  have voted: "\<exists>i<length (feedbackStore s).
            id_f (feedbackStore s ! i) = ident \<and> (\<forall>j<i. id_f (feedbackStore s ! j) \<noteq> ident)
          \<and> (body_prop vbody ''action'' = JStr ''upvote''
              \<and> \<bar>votes (feedbackStore s ! i) + 1\<bar> \<le> 2 ^ 53 \<longrightarrow>
               feedbackStore (snd (put_vote e ident vbody s))
                 = (feedbackStore s)[i := (feedbackStore s ! i)
                      \<lparr>votes := votes (feedbackStore s ! i) + 1\<rparr>])
          \<and> (body_prop vbody ''action'' = JStr ''downvote''
              \<and> \<bar>votes (feedbackStore s ! i) - 1\<bar> \<le> 2 ^ 53 \<longrightarrow>
               feedbackStore (snd (put_vote e ident vbody s))
                 = (feedbackStore s)[i := (feedbackStore s ! i)
                      \<lparr>votes := votes (feedbackStore s ! i) - 1\<rparr>])
          \<and> (body_prop vbody ''action'' = JStr ''downvote'' \<longrightarrow>
               (\<forall>es. votes (feedbackStore s ! i) \<le> 2 ^ 53
                    \<and> - (2 ^ 53) \<le> votes (feedbackStore s ! i) - int (length es) \<longrightarrow>
                  feedbackStore (fold (\<lambda>e t. snd (put_vote e ident vbody t)) es s)
                    = (feedbackStore s)[i := (feedbackStore s ! i)
                        \<lparr>votes := votes (feedbackStore s ! i) - int (length es)\<rparr>])
             \<and> (\<bar>votes (feedbackStore s ! i)\<bar> \<le> 2 ^ 53 \<longrightarrow>
                 (\<exists>k. votes (feedbackStore
                   (fold (\<lambda>e t. snd (put_vote e ident vbody t)) (replicate k e) s) ! i) < 0)))"
    if present: "ident \<in> id_f ` set (feedbackStore s)"
  proof -
    let ?st = "feedbackStore s"
    from findIndex_present [OF present] obtain i
      where i: "findIndex (\<lambda>item. id_f item = ident) ?st = Some i" by blast
    from findIndex_SomeD [OF i]
    have len: "i < length ?st" and idi: "id_f (?st ! i) = ident"
      and first: "\<forall>j<i. id_f (?st ! j) \<noteq> ident" by simp_all
    have up: "feedbackStore (snd (put_vote e ident vbody s))
                 = ?st[i := (?st ! i)\<lparr>votes := votes (?st ! i) + 1\<rparr>]"
      if "body_prop vbody ''action'' = JStr ''upvote''" "\<bar>votes (?st ! i) + 1\<bar> \<le> 2 ^ 53"
      using vote_store [OF i that(1), of e] js_add_exact [OF that(2)] by simp
    have down: "feedbackStore (snd (put_vote e ident vbody s))
                 = ?st[i := (?st ! i)\<lparr>votes := votes (?st ! i) - 1\<rparr>]"
      if "body_prop vbody ''action'' = JStr ''downvote''" "\<bar>votes (?st ! i) - 1\<bar> \<le> 2 ^ 53"
      using vote_store [OF i that(1), of e] js_add_exact [of "votes (?st ! i)" "- 1"] that(2)
      by simp
    have many: "\<forall>es. votes (?st ! i) \<le> 2 ^ 53 \<and> - (2 ^ 53) \<le> votes (?st ! i) - int (length es) \<longrightarrow>
                 feedbackStore (fold (\<lambda>e t. snd (put_vote e ident vbody t)) es s)
                 = ?st[i := (?st ! i)\<lparr>votes := votes (?st ! i) - int (length es)\<rparr>]"
      if "body_prop vbody ''action'' = JStr ''downvote''"
      using fold_downvote [OF that i] by blast
    have neg: "\<exists>k. votes (feedbackStore
                   (fold (\<lambda>e t. snd (put_vote e ident vbody t)) (replicate k e) s) ! i) < 0"
      if d: "body_prop vbody ''action'' = JStr ''downvote''" and r: "\<bar>votes (?st ! i)\<bar> \<le> 2 ^ 53"
    proof (cases "votes (?st ! i) < 0")
      case True
      then have "votes (feedbackStore
                   (fold (\<lambda>e t. snd (put_vote e ident vbody t)) (replicate 0 e) s) ! i) < 0"
        by simp
      then show ?thesis by blast
    next
      case False
      let ?k = "nat (votes (?st ! i)) + 1"
      from False r have b1: "votes (?st ! i) \<le> 2 ^ 53"
        and b2: "- (2 ^ 53) \<le> votes (?st ! i) - int (length (replicate ?k e))"
        by simp_all
      have "votes (feedbackStore
                   (fold (\<lambda>e t. snd (put_vote e ident vbody t)) (replicate ?k e) s) ! i)
            = votes (?st ! i) - int ?k"
        using fold_downvote [OF d i b1 b2] len by simp
      also have "\<dots> < 0" using False by simp
      finally show ?thesis by blast
    qed
    from len idi first up down many neg show ?thesis by blast
  qed
  from created voted show ?thesis by blast
qed

theorem votes_start_at_zero_and_step_by_one_witness:
  "''c3'' \<in> id_f ` set (feedbackStore ex_server)
   \<and> body_prop ex_up ''action'' = JStr ''upvote''
   \<and> body_prop ex_down ''action'' = JStr ''downvote''
   \<and> votes ex_C = 1
   \<and> votes (last (feedbackStore (snd (post_feedback ex_env ex_body ex_server)))) = 0
   \<and> feedbackStore (snd (put_vote ex_env ''c3'' ex_up ex_server)) = [ex_A, ex_B, ex_C\<lparr>votes := 2\<rparr>]
   \<and> feedbackStore (snd (put_vote ex_env ''c3'' ex_down ex_server)) = [ex_A, ex_B, ex_C\<lparr>votes := 0\<rparr>]
   \<and> feedbackStore (fold (\<lambda>e t. snd (put_vote e ''c3'' ex_down t)) [ex_env, ex_env_fail] ex_server)
       = [ex_A, ex_B, ex_C\<lparr>votes := - 1\<rparr>]"
proof -
  have vC: "votes ex_C = 1" by (simp add: ex_C_def)
  have st: "feedbackStore ex_server = [ex_A, ex_B, ex_C]" by (simp add: ex_server_def)
  have rx: "rx_test emailRegex ''Dan@Example.org''" by (simp add: rx_defs)
  have ne: "'' Dan '' \<noteq> []" by simp
  have len: "5 \<le> length (trim ''hello'')" by (simp add: ex_trims)
  have grown: "feedbackStore (snd (post_feedback ex_env ex_body ex_server)) \<noteq> feedbackStore ex_server"
    using post_accept [OF ex_body_props(1) ne ex_body_props(2) rx ex_body_props(3) len,
        of ex_env ex_server]
    by (simp add: Let_def ex_write)
  note up = votes_start_at_zero_and_step_by_one [of ex_env ex_body ex_server "''c3''" ex_up]
  note down = votes_start_at_zero_and_step_by_one [of ex_env ex_body ex_server "''c3''" ex_down]
  from up grown
  have created: "votes (last (feedbackStore (snd (post_feedback ex_env ex_body ex_server)))) = 0"
    by auto
  from up ex_present obtain i where i: "i < length (feedbackStore ex_server)"
      "id_f (feedbackStore ex_server ! i) = ''c3''"
    and u: "body_prop ex_up ''action'' = JStr ''upvote''
       \<and> \<bar>votes (feedbackStore ex_server ! i) + 1\<bar> \<le> 2 ^ 53 \<longrightarrow>
       feedbackStore (snd (put_vote ex_env ''c3'' ex_up ex_server))
         = (feedbackStore ex_server)[i := (feedbackStore ex_server ! i)
              \<lparr>votes := votes (feedbackStore ex_server ! i) + 1\<rparr>]"
    by blast
  from ex_index [OF i] u ex_body_props(5)
  have upv: "feedbackStore (snd (put_vote ex_env ''c3'' ex_up ex_server))
      = [ex_A, ex_B, ex_C\<lparr>votes := 2\<rparr>]"
    by (simp add: st vC)
  from down ex_present obtain j where j: "j < length (feedbackStore ex_server)"
      "id_f (feedbackStore ex_server ! j) = ''c3''"
    and d: "body_prop ex_down ''action'' = JStr ''downvote''
       \<and> \<bar>votes (feedbackStore ex_server ! j) - 1\<bar> \<le> 2 ^ 53 \<longrightarrow>
       feedbackStore (snd (put_vote ex_env ''c3'' ex_down ex_server))
         = (feedbackStore ex_server)[j := (feedbackStore ex_server ! j)
              \<lparr>votes := votes (feedbackStore ex_server ! j) - 1\<rparr>]"
    and m: "body_prop ex_down ''action'' = JStr ''downvote'' \<longrightarrow>
       (\<forall>es. votes (feedbackStore ex_server ! j) \<le> 2 ^ 53
            \<and> - (2 ^ 53) \<le> votes (feedbackStore ex_server ! j) - int (length es) \<longrightarrow>
          feedbackStore (fold (\<lambda>e t. snd (put_vote e ''c3'' ex_down t)) es ex_server)
           = (feedbackStore ex_server)[j := (feedbackStore ex_server ! j)
                \<lparr>votes := votes (feedbackStore ex_server ! j) - int (length es)\<rparr>])
       \<and> (\<bar>votes (feedbackStore ex_server ! j)\<bar> \<le> 2 ^ 53 \<longrightarrow>
           (\<exists>k. votes (feedbackStore
             (fold (\<lambda>e t. snd (put_vote e ''c3'' ex_down t)) (replicate k ex_env) ex_server) ! j) < 0))"
    by blast
  from ex_index [OF j] d ex_body_props(4)
  have downv: "feedbackStore (snd (put_vote ex_env ''c3'' ex_down ex_server))
      = [ex_A, ex_B, ex_C\<lparr>votes := 0\<rparr>]"
    by (simp add: st vC)
  from m ex_body_props(4)
  have "votes (feedbackStore ex_server ! j) \<le> 2 ^ 53
            \<and> - (2 ^ 53) \<le> votes (feedbackStore ex_server ! j) - int (length [ex_env, ex_env_fail]) \<longrightarrow>
          feedbackStore (fold (\<lambda>e t. snd (put_vote e ''c3'' ex_down t)) [ex_env, ex_env_fail] ex_server)
           = (feedbackStore ex_server)[j := (feedbackStore ex_server ! j)
                \<lparr>votes := votes (feedbackStore ex_server ! j) - int (length [ex_env, ex_env_fail])\<rparr>]"
    by blast
  with ex_index [OF j]
  have twice: "feedbackStore (fold (\<lambda>e t. snd (put_vote e ''c3'' ex_down t)) [ex_env, ex_env_fail] ex_server)
       = [ex_A, ex_B, ex_C\<lparr>votes := - 1\<rparr>]"
    by (simp add: st vC)
  from ex_present ex_body_props(4,5) vC created upv downv twice show ?thesis by blast
qed

text \<open>
  A record whose votes are \<open>-2^53\<close>, as a loaded file can hold it: the downvote succeeds and
  the votes are what they were, since \<open>-2^53 - 1\<close> is no double and rounds back to \<open>-2^53\<close>.
\<close>

theorem downvote_stops_at_lower_limit:
  "status (fst (put_vote ex_env ''c3'' ex_down
       \<lparr>feedbackStore = [ex_C\<lparr>votes := - 9007199254740992\<rparr>], dataFile = None\<rparr>)) = 200
   \<and> feedbackStore (snd (put_vote ex_env ''c3'' ex_down
       \<lparr>feedbackStore = [ex_C\<lparr>votes := - 9007199254740992\<rparr>], dataFile = None\<rparr>))
      = [ex_C\<lparr>votes := - 9007199254740992\<rparr>]"
proof -
  have "js_add (- 9007199254740992) (- 1) = - 9007199254740992"
    by (simp add: js_add_def round_double_def bit_length_numeral)
  then show ?thesis
    by (simp add: put_vote_def body_prop_def includes_action_def saveFeedbackData_def
        ok_json_def Let_def ex_defs)
qed

text \<open>
  \<^bold>\<open>C6.\<close> For an id that no record of the store has, a vote with the action \<open>upvote\<close> or
  \<open>downvote\<close> and a delete both answer 404 with \<open>success: false\<close> and the message
  \<open>Feedback not found\<close>, and the state stays as it was.
\<close>

theorem unknown_id_is_not_found:
  assumes "ident \<notin> id_f ` set (feedbackStore s)"
  shows "(body_prop body ''action'' = JStr ''upvote'' \<or> body_prop body ''action'' = JStr ''downvote''
            \<longrightarrow> put_vote e ident body s
                 = (\<lparr>status = 404, success = False, res_message = Some ''Feedback not found'',
                     res_data = NoData, res_count = None, res_error = None\<rparr>, s))
       \<and> delete_feedback e ident s
            = (\<lparr>status = 404, success = False, res_message = Some ''Feedback not found'',
                res_data = NoData, res_count = None, res_error = None\<rparr>, s)"
  using put_vote_absent [OF findIndex_absent [OF assms], of body e]
    delete_absent [OF findIndex_absent [OF assms], of e]
  by (simp add: fail_json_def)

theorem unknown_id_is_not_found_witness:
  "''zz'' \<notin> id_f ` set (feedbackStore ex_server)
   \<and> body_prop ex_up ''action'' = JStr ''upvote''
   \<and> put_vote ex_env ''zz'' ex_up ex_server
       = (\<lparr>status = 404, success = False, res_message = Some ''Feedback not found'',
           res_data = NoData, res_count = None, res_error = None\<rparr>, ex_server)
   \<and> delete_feedback ex_env ''zz'' ex_server
       = (\<lparr>status = 404, success = False, res_message = Some ''Feedback not found'',
           res_data = NoData, res_count = None, res_error = None\<rparr>, ex_server)"
  using unknown_id_is_not_found [OF ex_absent, of ex_up ex_env] ex_absent ex_body_props(5)
  by blast

text \<open>
  \<^bold>\<open>C7.\<close> When the name and the email are truthy, the email passes the format check and
  the message is a non-empty string whose trimmed length is less than 5, \<open>POST /feedback\<close>
  answers 400 with the message about the length, and the state stays as it was. When the
  name is a non-empty string, the email a string that passes the format check, the message
  a string of trimmed length exactly 5 and the write succeeds, it answers 201, \<open>data\<close> is
  the created record, and that record is appended to the store and written to the file.
\<close>

theorem short_message_rejected_five_accepted:
  "(truthy (body_prop body ''name'') \<and> truthy (body_prop body ''email'')
      \<and> isValidEmail (body_prop body ''email'') = Inr True
      \<and> body_prop body ''message'' = JStr msg \<and> msg \<noteq> [] \<and> length (trim msg) < 5
     \<longrightarrow> post_feedback e body s
          = (\<lparr>status = 400, success = False,
              res_message = Some ''Feedback message must be at least 5 characters long'',
              res_data = NoData, res_count = None, res_error = None\<rparr>, s))
   \<and> (body_prop body ''name'' = JStr n \<and> n \<noteq> [] \<and> body_prop body ''email'' = JStr em
      \<and> isValidEmail (JStr em) = Inr True
      \<and> body_prop body ''message'' = JStr msg \<and> length (trim msg) = 5 \<and> writeFile e = None
     \<longrightarrow> post_feedback e body s
          = (\<lparr>status = 201, success = True,
              res_message = Some ''Feedback submitted successfully'',
              res_data = Record \<lparr>id_f = generateId e, name = trim n, email = toLowerCase (trim em),
                                 message = trim msg, votes = 0, createdAt = nowISO e\<rparr>,
              res_count = None, res_error = None\<rparr>,
             s\<lparr>feedbackStore := feedbackStore s @
                  [\<lparr>id_f = generateId e, name = trim n, email = toLowerCase (trim em),
                    message = trim msg, votes = 0, createdAt = nowISO e\<rparr>],
               dataFile := Some (feedbackStore s @
                  [\<lparr>id_f = generateId e, name = trim n, email = toLowerCase (trim em),
                    message = trim msg, votes = 0, createdAt = nowISO e\<rparr>])\<rparr>))"
proof (intro conjI impI)
  assume a: "truthy (body_prop body ''name'') \<and> truthy (body_prop body ''email'')
      \<and> isValidEmail (body_prop body ''email'') = Inr True
      \<and> body_prop body ''message'' = JStr msg \<and> msg \<noteq> [] \<and> length (trim msg) < 5"
  then show "post_feedback e body s
          = (\<lparr>status = 400, success = False,
              res_message = Some ''Feedback message must be at least 5 characters long'',
              res_data = NoData, res_count = None, res_error = None\<rparr>, s)"
    by (simp add: post_feedback_def Let_def fail_json_def)
next
  assume a: "body_prop body ''name'' = JStr n \<and> n \<noteq> [] \<and> body_prop body ''email'' = JStr em
      \<and> isValidEmail (JStr em) = Inr True
      \<and> body_prop body ''message'' = JStr msg \<and> length (trim msg) = 5 \<and> writeFile e = None"
  then have "rx_test emailRegex em" and "5 \<le> length (trim msg)"
    by (simp_all add: isValidEmail_def)
  with a post_accept [of body n em msg e s]
  show "post_feedback e body s
          = (\<lparr>status = 201, success = True,
              res_message = Some ''Feedback submitted successfully'',
              res_data = Record \<lparr>id_f = generateId e, name = trim n, email = toLowerCase (trim em),
                                 message = trim msg, votes = 0, createdAt = nowISO e\<rparr>,
              res_count = None, res_error = None\<rparr>,
             s\<lparr>feedbackStore := feedbackStore s @
                  [\<lparr>id_f = generateId e, name = trim n, email = toLowerCase (trim em),
                    message = trim msg, votes = 0, createdAt = nowISO e\<rparr>],
               dataFile := Some (feedbackStore s @
                  [\<lparr>id_f = generateId e, name = trim n, email = toLowerCase (trim em),
                    message = trim msg, votes = 0, createdAt = nowISO e\<rparr>])\<rparr>)"
    by (simp add: Let_def ok_json_def)
qed

theorem short_message_rejected_five_accepted_witness:
  "truthy (body_prop [(''name'', JStr ''Dan''), (''email'', JStr ''Dan@Example.org''),
                      (''message'', JStr '' hi '')] ''name'')
   \<and> isValidEmail (body_prop [(''name'', JStr ''Dan''), (''email'', JStr ''Dan@Example.org''),
                      (''message'', JStr '' hi '')] ''email'') = Inr True
   \<and> length (trim '' hi '') < 5
   \<and> post_feedback ex_env [(''name'', JStr ''Dan''), (''email'', JStr ''Dan@Example.org''),
                      (''message'', JStr '' hi '')] ex_server
      = (\<lparr>status = 400, success = False,
          res_message = Some ''Feedback message must be at least 5 characters long'',
          res_data = NoData, res_count = None, res_error = None\<rparr>, ex_server)
   \<and> length (trim ''hello'') = 5
   \<and> writeFile ex_env = None
   \<and> post_feedback ex_env ex_body ex_server
      = (\<lparr>status = 201, success = True,
          res_message = Some ''Feedback submitted successfully'',
          res_data = Record \<lparr>id_f = ''m1x9k2'', name = ''Dan'', email = ''dan@example.org'',
                             message = ''hello'', votes = 0,
                             createdAt = ''2024-05-01T10:00:00.000Z''\<rparr>,
          res_count = None, res_error = None\<rparr>,
         \<lparr>feedbackStore = [ex_A, ex_B, ex_C,
              \<lparr>id_f = ''m1x9k2'', name = ''Dan'', email = ''dan@example.org'',
               message = ''hello'', votes = 0, createdAt = ''2024-05-01T10:00:00.000Z''\<rparr>],
          dataFile = Some [ex_A, ex_B, ex_C,
              \<lparr>id_f = ''m1x9k2'', name = ''Dan'', email = ''dan@example.org'',
               message = ''hello'', votes = 0, createdAt = ''2024-05-01T10:00:00.000Z''\<rparr>]\<rparr>)"
proof -
  let ?short = "[(''name'', JStr ''Dan''), (''email'', JStr ''Dan@Example.org''),
                      (''message'', JStr '' hi '')]"
  have p: "body_prop ?short ''name'' = JStr ''Dan''"
    "body_prop ?short ''email'' = JStr ''Dan@Example.org''"
    "body_prop ?short ''message'' = JStr '' hi ''"
    by (simp_all add: body_prop_def)
  have n: "truthy (body_prop ?short ''name'')" and e: "truthy (body_prop ?short ''email'')"
    by (simp_all add: p)
  have v: "isValidEmail (body_prop ?short ''email'') = Inr True"
    by (simp add: p ex_email_ok)
  have hi: "length (trim '' hi '') < 5" by (simp add: trim_def is_ws_def)
  have ne: "'' hi '' \<noteq> []" by simp
  from short_message_rejected_five_accepted [of ?short "'' hi ''" ex_env ex_server] n e v p(3) ne hi
  have short: "post_feedback ex_env ?short ex_server
      = (\<lparr>status = 400, success = False,
          res_message = Some ''Feedback message must be at least 5 characters long'',
          res_data = NoData, res_count = None, res_error = None\<rparr>, ex_server)"
    by blast
  have five: "length (trim ''hello'') = 5" by (simp add: ex_trims)
  have dn: "'' Dan '' \<noteq> []" by simp
  from short_message_rejected_five_accepted [of ex_body "''hello''" ex_env ex_server "'' Dan ''"
      "''Dan@Example.org''"] ex_body_props(1,2,3) dn ex_email_ok five ex_write(1)
  have "post_feedback ex_env ex_body ex_server
          = (\<lparr>status = 201, success = True,
              res_message = Some ''Feedback submitted successfully'',
              res_data = Record \<lparr>id_f = generateId ex_env, name = trim '' Dan '',
                                 email = toLowerCase (trim ''Dan@Example.org''),
                                 message = trim ''hello'', votes = 0, createdAt = nowISO ex_env\<rparr>,
              res_count = None, res_error = None\<rparr>,
             ex_server\<lparr>feedbackStore := feedbackStore ex_server @
                  [\<lparr>id_f = generateId ex_env, name = trim '' Dan '',
                    email = toLowerCase (trim ''Dan@Example.org''),
                    message = trim ''hello'', votes = 0, createdAt = nowISO ex_env\<rparr>],
               dataFile := Some (feedbackStore ex_server @
                  [\<lparr>id_f = generateId ex_env, name = trim '' Dan '',
                    email = toLowerCase (trim ''Dan@Example.org''),
                    message = trim ''hello'', votes = 0, createdAt = nowISO ex_env\<rparr>])\<rparr>)"
    by blast
  then have ok: "post_feedback ex_env ex_body ex_server
      = (\<lparr>status = 201, success = True,
          res_message = Some ''Feedback submitted successfully'',
          res_data = Record \<lparr>id_f = ''m1x9k2'', name = ''Dan'', email = ''dan@example.org'',
                             message = ''hello'', votes = 0,
                             createdAt = ''2024-05-01T10:00:00.000Z''\<rparr>,
          res_count = None, res_error = None\<rparr>,
         \<lparr>feedbackStore = [ex_A, ex_B, ex_C,
              \<lparr>id_f = ''m1x9k2'', name = ''Dan'', email = ''dan@example.org'',
               message = ''hello'', votes = 0, createdAt = ''2024-05-01T10:00:00.000Z''\<rparr>],
          dataFile = Some [ex_A, ex_B, ex_C,
              \<lparr>id_f = ''m1x9k2'', name = ''Dan'', email = ''dan@example.org'',
               message = ''hello'', votes = 0, createdAt = ''2024-05-01T10:00:00.000Z''\<rparr>]\<rparr>)"
    by (simp add: ex_trims ex_lower ex_server_def ex_env_def)
  from n v hi short five ex_write(1) ok show ?thesis by blast
qed

text \<open>
  The empty string is a string of trimmed length 0. It is refused by the check for
  required fields, with the message of that check and not the one about the length.
\<close>

theorem empty_message_gets_required_fields_reply:
  "length (trim '''') < 5
   \<and> post_feedback ex_env
        [(''name'', JStr ''Dan''), (''email'', JStr ''dan@example.org''),
         (''message'', JStr '''')] ex_server
      = (\<lparr>status = 400, success = False,
          res_message = Some ''Name, email, and message are required fields'',
          res_data = NoData, res_count = None, res_error = None\<rparr>, ex_server)
   \<and> ''Name, email, and message are required fields''
       \<noteq> ''Feedback message must be at least 5 characters long''"
  by (simp add: trim_Nil post_feedback_def body_prop_def fail_json_def)



text \<open>
  \<^bold>\<open>C9.\<close> The action of a vote is checked before the id is looked up: when the action is
  missing or is anything but the string \<open>upvote\<close> or \<open>downvote\<close>, the answer is 400 with
  the message about the action, whatever the id and the store, and the state stays as it
  was. So 400 comes before 404.
\<close>

theorem invalid_action_rejected_before_lookup:
  assumes "body_prop body ''action'' \<noteq> JStr ''upvote''"
    and "body_prop body ''action'' \<noteq> JStr ''downvote''"
  shows "put_vote e ident body s
     = (\<lparr>status = 400, success = False,
         res_message = Some ''Action must be either \"upvote\" or \"downvote\"'',
         res_data = NoData, res_count = None, res_error = None\<rparr>, s)"
  using put_vote_invalid [OF assms, of e ident s] by (simp add: fail_json_def)

theorem invalid_action_rejected_before_lookup_witness:
  "body_prop [] ''action'' \<noteq> JStr ''upvote''
   \<and> body_prop [] ''action'' \<noteq> JStr ''downvote''
   \<and> ''zz'' \<notin> id_f ` set (feedbackStore ex_server)
   \<and> put_vote ex_env ''zz'' [] ex_server
     = (\<lparr>status = 400, success = False,
         res_message = Some ''Action must be either \"upvote\" or \"downvote\"'',
         res_data = NoData, res_count = None, res_error = None\<rparr>, ex_server)"
proof -
  have a: "body_prop [] ''action'' \<noteq> JStr ''upvote''" "body_prop [] ''action'' \<noteq> JStr ''downvote''"
    by (simp_all add: body_prop_def)
  from invalid_action_rejected_before_lookup [OF a, of ex_env "''zz''" ex_server] a ex_absent
  show ?thesis by blast
qed

text \<open>
  \<^bold>\<open>C10.\<close> When the name and the email are truthy and the email passes the format check, a
  truthy message that is not a string makes \<open>message.trim()\<close> throw: the answer is not a
  400 but the 500 of the route's \<open>catch\<close>, with the text of the error in \<open>error\<close>, and no
  record is added.
\<close>

theorem non_string_message_throws:
  assumes "truthy (body_prop body ''name'')"
    and "truthy (body_prop body ''email'')"
    and "isValidEmail (body_prop body ''email'') = Inr True"
    and "truthy (body_prop body ''message'')"
    and "\<forall>m. body_prop body ''message'' \<noteq> JStr m"
  shows "post_feedback e body s
     = (\<lparr>status = 500, success = False, res_message = Some ''Error creating feedback'',
         res_data = NoData, res_count = None,
         res_error = Some ''message.trim is not a function''\<rparr>, s)"
proof -
  from assms(5) have "call_trim ''message'' (body_prop body ''message'')
      = Inl (TypeError ''message.trim is not a function'')"
    by (cases "body_prop body ''message''") simp_all
  with assms(1-4) show ?thesis
    by (simp add: post_feedback_def Let_def catch_json_def)
qed

theorem non_string_message_throws_witness:
  "truthy (body_prop [(''name'', JStr ''Dan''), (''email'', JStr ''dan@example.org''),
                      (''message'', JNum ''12345'')] ''name'')
   \<and> isValidEmail (body_prop [(''name'', JStr ''Dan''), (''email'', JStr ''dan@example.org''),
                      (''message'', JNum ''12345'')] ''email'') = Inr True
   \<and> body_prop [(''name'', JStr ''Dan''), (''email'', JStr ''dan@example.org''),
                      (''message'', JNum ''12345'')] ''message'' = JNum ''12345''
   \<and> truthy (JNum ''12345'')
   \<and> post_feedback ex_env [(''name'', JStr ''Dan''), (''email'', JStr ''dan@example.org''),
                      (''message'', JNum ''12345'')] ex_server
     = (\<lparr>status = 500, success = False, res_message = Some ''Error creating feedback'',
         res_data = NoData, res_count = None,
         res_error = Some ''message.trim is not a function''\<rparr>, ex_server)"
proof -
  let ?body = "[(''name'', JStr ''Dan''), (''email'', JStr ''dan@example.org''),
                      (''message'', JNum ''12345'')]"
  have n: "truthy (body_prop ?body ''name'')" by (simp add: body_prop_def)
  have e: "truthy (body_prop ?body ''email'')" by (simp add: body_prop_def)
  have v: "isValidEmail (body_prop ?body ''email'') = Inr True"
    by (simp add: body_prop_def isValidEmail_def rx_defs)
  have m: "body_prop ?body ''message'' = JNum ''12345''" by (simp add: body_prop_def)
  have tn: "truthy (JNum ''12345'')" by simp
  have t: "truthy (body_prop ?body ''message'')" by (simp add: m)
  have ns: "\<forall>s. body_prop ?body ''message'' \<noteq> JStr s" by (simp add: m)
  from non_string_message_throws [OF n e v t ns, of ex_env ex_server] n v m tn
  show ?thesis by blast
qed

text \<open>
  A body that holds only the message 12345: the message is truthy and not a string, and
  the answer is the 400 of the check for required fields.
\<close>

theorem number_message_alone_gets_400:
  "body_prop [(''message'', JNum ''12345'')] ''message'' = JNum ''12345''
   \<and> truthy (JNum ''12345'')
   \<and> post_feedback ex_env [(''message'', JNum ''12345'')] ex_server
      = (\<lparr>status = 400, success = False,
          res_message = Some ''Name, email, and message are required fields'',
          res_data = NoData, res_count = None, res_error = None\<rparr>, ex_server)"
  by (simp add: post_feedback_def body_prop_def fail_json_def)

end
